theory Spec2Isabelle
  imports Main "HOL-Library.AList" "HOL-Library.Sublist"
begin

section \<open>The mount module: fstab reconciliation and the four target states\<close>

text \<open>
  A shallow embedding of \<^verbatim>\<open>system/mount.py\<close>. The module is Python 2: a line of
  the table is a byte string, so a line is a \<^typ>\<open>string\<close> and the table file is
  the string of its bytes. The operating system is a record of what the module can
  observe of it (the outcome of each command and each file-system call it makes),
  together with the trace of the actions the module performed.
\<close>

subsection \<open>Python string primitives\<close>

text \<open>
  \<^verbatim>\<open>str.isspace\<close> of a Python 2 byte string in the C locale: space, tab, newline,
  vertical tab, form feed, carriage return.
\<close>

definition isspace :: "char \<Rightarrow> bool" where
  "isspace c = (c = CHR '' '' \<or> c = CHR 0x09 \<or> c = CHR 0x0A \<or> c = CHR 0x0B
                \<or> c = CHR 0x0C \<or> c = CHR 0x0D)"

text \<open>\<^verbatim>\<open>s.split()\<close>: the maximal runs of non-whitespace, in order.\<close>

fun split_ws :: "string \<Rightarrow> string \<Rightarrow> string list" where
  "split_ws cur [] = (if cur = [] then [] else [cur])"
| "split_ws cur (c # cs) =
     (if isspace c then (if cur = [] then split_ws [] cs else cur # split_ws [] cs)
      else split_ws (cur @ [c]) cs)"

definition py_split :: "string \<Rightarrow> string list" where
  "py_split s = split_ws [] s"

text \<open>\<^verbatim>\<open>s.strip()\<close>: leading and trailing whitespace removed.\<close>

definition py_strip :: "string \<Rightarrow> string" where
  "py_strip s = rev (dropWhile isspace (rev (dropWhile isspace s)))"

definition startswith :: "string \<Rightarrow> string \<Rightarrow> bool" where
  "startswith s p = (take (length p) s = p)"

text \<open>\<^verbatim>\<open>s.split(sep)\<close> with a one-character separator: empty pieces are kept.\<close>

fun split_sep :: "char \<Rightarrow> string \<Rightarrow> string \<Rightarrow> string list" where
  "split_sep sep cur [] = [cur]"
| "split_sep sep cur (c # cs) =
     (if c = sep then cur # split_sep sep [] cs else split_sep sep (cur @ [c]) cs)"

text \<open>
  \<^verbatim>\<open>f.readlines()\<close> of a file opened with mode \<^verbatim>\<open>'r'\<close>: the content cut after
  every newline, each line keeping its newline; a last line without one is kept as it is.
\<close>

fun readlines :: "string \<Rightarrow> string list" where
  "readlines [] = []"
| "readlines (c # cs) =
     (if c = CHR 0x0A then [c] # readlines cs
      else (case readlines cs of [] \<Rightarrow> [[c]] | l # ls \<Rightarrow> (c # l) # ls))"

subsection \<open>Data model\<close>

text \<open>
  The dictionary \<^verbatim>\<open>ld\<close> of a decoded line has the six keys of an fstab entry; the
  dictionary \<^verbatim>\<open>args\<close> of \<^verbatim>\<open>set_mount\<close> and \<^verbatim>\<open>unset_mount\<close> has them and
  \<^verbatim>\<open>fstab\<close>, the path of the table file.
\<close>

record entry =
  src :: string
  name :: string
  fstype :: string
  opts :: string
  dump :: string
  passno :: string

record mount_args = entry +
  fstab :: string

datatype state = Present | Absent | Mounted | Unmounted

text \<open>
  \<^verbatim>\<open>module.params\<close>: the framework has checked that \<^verbatim>\<open>state\<close> is one of the four
  choices and has filled in the default of \<^verbatim>\<open>fstab\<close>; \<^verbatim>\<open>opts\<close>, \<^verbatim>\<open>passno\<close>
  and \<^verbatim>\<open>dump\<close> are \<^verbatim>\<open>None\<close> when not given.
\<close>

record params =
  p_state :: state
  p_name :: string
  p_opts :: "string option"
  p_passno :: "string option"
  p_dump :: "string option"
  p_src :: string
  p_fstype :: string
  p_fstab :: string

text \<open>
  The dictionary \<^verbatim>\<open>args\<close> that \<^verbatim>\<open>main\<close> builds and passes as \<^verbatim>\<open>**kwargs\<close>: the
  keys \<^verbatim>\<open>passno\<close>, \<^verbatim>\<open>opts\<close> and \<^verbatim>\<open>dump\<close> are present only when the
  parameter is not \<^verbatim>\<open>None\<close>.
\<close>

record kwargs =
  kw_name :: string
  kw_src :: string
  kw_fstype :: string
  kw_state :: state
  kw_passno :: "string option"
  kw_opts :: "string option"
  kw_dump :: "string option"
  kw_fstab :: string

datatype exn = IndexError | IOError | OSError string

datatype event =
    QueryMounts
  | CreateDirs string
  | CreateFile string
  | WriteFstab string string
  | MakeDirs string
  | RunMount "string list"
  | RunUmount "string list"
  | RmDir string

text \<open>
  What the module observes of the system. \<open>fstab_file\<close> is the content of the file at
  the table path (\<open>None\<close>: no such file); the other fields are the answers the system
  gives: the exit code and output of \<^verbatim>\<open>mount -l\<close>, whether the directory of the table
  file and the mount point exist, and the outcome of each action (\<open>None\<close>: it succeeds,
  \<open>Some e\<close>: it raises with message \<open>e\<close>; for a command its exit code, output and
  error output). The table path and the mount point are taken to be different,
  unrelated paths, and the table file, when it exists, to be readable and writable.
\<close>

record world =
  mount_l :: "int \<times> string"
  fstab_file :: "string option"
  fstab_dir_exists :: bool
  fstab_dir_err :: "string option"
  name_exists :: bool
  name_ismount :: bool
  makedirs_err :: "string option"
  rmdir_err :: "string option"
  mount_cmd :: "int \<times> string \<times> string"
  umount_cmd :: "int \<times> string \<times> string"
  trace :: "event list"

datatype outcome = ExitJson bool | FailJson string | Uncaught exn

subsection \<open>\<^verbatim>\<open>write_fstab\<close>\<close>

definition write_fstab :: "string list \<Rightarrow> string \<Rightarrow> world \<Rightarrow> world" where
  "write_fstab lines dest w =
     w\<lparr>fstab_file := Some (concat lines),
       trace := trace w @ [WriteFstab dest (concat lines)]\<rparr>"

subsection \<open>\<^verbatim>\<open>set_mount\<close>\<close>

definition set_mount_args :: "kwargs \<Rightarrow> mount_args" where
  "set_mount_args kw =
     \<lparr>src = kw_src kw, name = kw_name kw, fstype = kw_fstype kw,
      opts = (case kw_opts kw of None \<Rightarrow> ''defaults'' | Some v \<Rightarrow> v),
      dump = (case kw_dump kw of None \<Rightarrow> ''0'' | Some v \<Rightarrow> v),
      passno = (case kw_passno kw of None \<Rightarrow> ''0'' | Some v \<Rightarrow> v),
      fstab = kw_fstab kw\<rparr>"

text \<open>\<^verbatim>\<open>new_line % d\<close> for a dictionary \<open>d\<close> that has the six keys.\<close>

definition new_line :: "'a entry_scheme \<Rightarrow> string" where
  "new_line d = src d @ '' '' @ name d @ '' '' @ fstype d @ '' '' @ opts d @ '' ''
                @ dump d @ '' '' @ passno d @ [CHR 0x0A]"

text \<open>The tuple assignment from \<^verbatim>\<open>line.split()\<close>, reached only with six fields.\<close>

definition unpack :: "string list \<Rightarrow> entry" where
  "unpack fs = \<lparr>src = fs ! 0, name = fs ! 1, fstype = fs ! 2, opts = fs ! 3,
                dump = fs ! 4, passno = fs ! 5\<rparr>"

text \<open>
  The loop over \<^verbatim>\<open>('src', 'fstype', 'opts', 'dump', 'passno')\<close>: every key of \<open>ld\<close>
  that differs from \<open>args\<close> is overwritten and sets \<open>changed\<close>.
\<close>

definition compare_fields :: "mount_args \<Rightarrow> entry \<Rightarrow> bool \<Rightarrow> entry \<times> bool" where
  "compare_fields args ld changed =
     (let (ld, changed) =
            (if src ld \<noteq> src args then (ld\<lparr>src := src args\<rparr>, True) else (ld, changed));
          (ld, changed) =
            (if fstype ld \<noteq> fstype args then (ld\<lparr>fstype := fstype args\<rparr>, True)
             else (ld, changed));
          (ld, changed) =
            (if opts ld \<noteq> opts args then (ld\<lparr>opts := opts args\<rparr>, True) else (ld, changed));
          (ld, changed) =
            (if dump ld \<noteq> dump args then (ld\<lparr>dump := dump args\<rparr>, True) else (ld, changed));
          (ld, changed) =
            (if passno ld \<noteq> passno args then (ld\<lparr>passno := passno args\<rparr>, True)
             else (ld, changed))
      in (ld, changed))"

text \<open>
  One iteration of the loop of \<^verbatim>\<open>set_mount\<close> over the lines of the table; the loop
  state is \<open>(to_write, exists, changed)\<close>. The flag \<open>changed\<close> is never reset between
  lines.
\<close>

definition set_mount_step ::
  "mount_args \<Rightarrow> string \<Rightarrow> string list \<times> bool \<times> bool \<Rightarrow> string list \<times> bool \<times> bool" where
  "set_mount_step args line st =
     (case st of (to_write, exists, changed) \<Rightarrow>
        if py_strip line = [] then (to_write @ [line], exists, changed)
        else if startswith (py_strip line) ''#'' then (to_write @ [line], exists, changed)
        else if length (py_split line) \<noteq> 6 then (to_write @ [line], exists, changed)
        else
          (let ld = unpack (py_split line) in
           if name ld \<noteq> name args then (to_write @ [line], exists, changed)
           else
             (case compare_fields args ld changed of (ld', changed') \<Rightarrow>
                if changed' then (to_write @ [new_line ld'], True, changed')
                else (to_write @ [line], True, changed'))))"

fun set_mount_loop ::
  "mount_args \<Rightarrow> string list \<Rightarrow> string list \<times> bool \<times> bool \<Rightarrow> string list \<times> bool \<times> bool" where
  "set_mount_loop args [] st = st"
| "set_mount_loop args (line # rest) st = set_mount_loop args rest (set_mount_step args line st)"

text \<open>
  \<^verbatim>\<open>set_mount\<close>: opening a table file that does not exist raises \<^verbatim>\<open>IOError\<close>. The
  result is \<open>changed\<close> and the system after the call.
\<close>

definition set_mount :: "kwargs \<Rightarrow> world \<Rightarrow> exn + bool \<times> world" where
  "set_mount kw w =
     (let args = set_mount_args kw in
      case fstab_file w of
        None \<Rightarrow> Inl IOError
      | Some f \<Rightarrow>
          (case set_mount_loop args (readlines f) ([], False, False) of
             (to_write, exists, changed) \<Rightarrow>
               (case (if \<not> exists then (to_write @ [new_line args], True)
                      else (to_write, changed)) of
                  (to_write, changed) \<Rightarrow>
                    Inr (changed,
                         if changed then write_fstab to_write (fstab args) w else w))))"

subsection \<open>\<^verbatim>\<open>unset_mount\<close>\<close>

definition unset_mount_args :: "kwargs \<Rightarrow> mount_args" where
  "unset_mount_args kw =
     \<lparr>src = kw_src kw, name = kw_name kw, fstype = kw_fstype kw,
      opts = (case kw_opts kw of None \<Rightarrow> ''default'' | Some v \<Rightarrow> v),
      dump = (case kw_dump kw of None \<Rightarrow> ''0'' | Some v \<Rightarrow> v),
      passno = (case kw_passno kw of None \<Rightarrow> ''0'' | Some v \<Rightarrow> v),
      fstab = kw_fstab kw\<rparr>"

text \<open>One iteration of the loop of \<^verbatim>\<open>unset_mount\<close>; the loop state is \<open>(to_write, changed)\<close>.\<close>

definition unset_mount_step ::
  "mount_args \<Rightarrow> string \<Rightarrow> string list \<times> bool \<Rightarrow> string list \<times> bool" where
  "unset_mount_step args line st =
     (case st of (to_write, changed) \<Rightarrow>
        if py_strip line = [] then (to_write @ [line], changed)
        else if startswith (py_strip line) ''#'' then (to_write @ [line], changed)
        else if length (py_split line) \<noteq> 6 then (to_write @ [line], changed)
        else
          (let ld = unpack (py_split line) in
           if name ld \<noteq> name args then (to_write @ [line], changed)
           else (to_write, True)))"

fun unset_mount_loop ::
  "mount_args \<Rightarrow> string list \<Rightarrow> string list \<times> bool \<Rightarrow> string list \<times> bool" where
  "unset_mount_loop args [] st = st"
| "unset_mount_loop args (line # rest) st =
     unset_mount_loop args rest (unset_mount_step args line st)"

definition unset_mount :: "kwargs \<Rightarrow> world \<Rightarrow> exn + bool \<times> world" where
  "unset_mount kw w =
     (let args = unset_mount_args kw in
      case fstab_file w of
        None \<Rightarrow> Inl IOError
      | Some f \<Rightarrow>
          (case unset_mount_loop args (readlines f) ([], False) of
             (to_write, changed) \<Rightarrow>
               Inr (changed,
                    if changed then write_fstab to_write (fstab args) w else w)))"

subsection \<open>\<^verbatim>\<open>mount_fs\<close>, \<^verbatim>\<open>umount_fs\<close>, \<^verbatim>\<open>get_mounted_fs\<close>\<close>

text \<open>
  The command is \<^verbatim>\<open>mount -o remount name\<close> when the path is a mount point and
  \<^verbatim>\<open>mount name\<close> otherwise (the word \<^verbatim>\<open>mount\<close> stands for the path that
  \<^verbatim>\<open>get_bin_path\<close> returns). The result is the exit code 0 with the empty message,
  or the exit code with the output followed by the error output.
\<close>

definition mount_fs :: "kwargs \<Rightarrow> world \<Rightarrow> (int \<times> string) \<times> world" where
  "mount_fs kw w =
     (let cmd = (if name_ismount w then [''mount'', ''-o'', ''remount'', kw_name kw]
                 else [''mount'', kw_name kw]);
          w' = w\<lparr>trace := trace w @ [RunMount cmd]\<rparr>
      in case mount_cmd w of (rc, out, err) \<Rightarrow>
           if rc = 0 then ((0, []), w') else ((rc, out @ err), w'))"

definition umount_fs :: "kwargs \<Rightarrow> world \<Rightarrow> (int \<times> string) \<times> world" where
  "umount_fs kw w =
     (let cmd = [''umount'', kw_name kw];
          w' = w\<lparr>trace := trace w @ [RunUmount cmd]\<rparr>
      in case umount_cmd w of (rc, out, err) \<Rightarrow>
           if rc = 0 then ((0, []), w') else ((rc, out @ err), w'))"

text \<open>
  The loop of \<^verbatim>\<open>get_mounted_fs\<close> over the lines of the output: the dictionary
  \<open>mounted\<close> is an association list; a line with fewer than three fields raises
  \<^verbatim>\<open>IndexError\<close> at \<^verbatim>\<open>fields[2]\<close>.
\<close>

fun mounted_loop :: "string list \<Rightarrow> (string \<times> string) list \<Rightarrow> exn + (string \<times> string) list" where
  "mounted_loop [] mounted = Inr mounted"
| "mounted_loop (m # ms) mounted =
     (case py_split m of
        f0 # f1 # f2 # fs \<Rightarrow> mounted_loop ms (AList.update f2 f0 mounted)
      | _ \<Rightarrow> Inl IndexError)"

definition get_mounted_fs :: "world \<Rightarrow> (exn + (string \<times> string) list) \<times> world" where
  "get_mounted_fs w =
     (let w' = w\<lparr>trace := trace w @ [QueryMounts]\<rparr> in
      case mount_l w of (rc, out) \<Rightarrow>
        if rc = 0 then (mounted_loop (butlast (split_sep (CHR 0x0A) [] out)) [], w')
        else (Inr [], w'))"

subsection \<open>\<^verbatim>\<open>main\<close>\<close>

text \<open>
  The dictionary \<open>args\<close> built from the parameters; a space in \<^verbatim>\<open>opts\<close> ends the
  run with \<^verbatim>\<open>fail_json\<close>.
\<close>

definition main_args :: "params \<Rightarrow> string + kwargs" where
  "main_args p =
     (case p_opts p of
        Some v \<Rightarrow>
          if CHR '' '' \<in> set v then Inl (''unexpected space in '' @ [CHR 0x27] @ ''opts'' @ [CHR 0x27] @ '' parameter'')
          else Inr \<lparr>kw_name = p_name p, kw_src = p_src p, kw_fstype = p_fstype p,
                    kw_state = p_state p, kw_passno = p_passno p, kw_opts = Some v,
                    kw_dump = p_dump p, kw_fstab = p_fstab p\<rparr>
      | None \<Rightarrow>
          Inr \<lparr>kw_name = p_name p, kw_src = p_src p, kw_fstype = p_fstype p,
               kw_state = p_state p, kw_passno = p_passno p, kw_opts = None,
               kw_dump = p_dump p, kw_fstab = p_fstab p\<rparr>)"

text \<open>
  The table file is created, with its directory, when it does not exist; a failing
  \<^verbatim>\<open>os.makedirs\<close> is not caught.
\<close>

definition ensure_fstab :: "kwargs \<Rightarrow> world \<Rightarrow> exn + world" where
  "ensure_fstab args w =
     (if fstab_file w = None then
        (if \<not> fstab_dir_exists w then
           (case fstab_dir_err w of
              Some e \<Rightarrow> Inl (OSError e)
            | None \<Rightarrow>
                Inr (w\<lparr>fstab_dir_exists := True, fstab_file := Some [],
                       trace := trace w @ [CreateDirs (kw_fstab args), CreateFile (kw_fstab args)]\<rparr>))
         else Inr (w\<lparr>fstab_file := Some [],
                     trace := trace w @ [CreateFile (kw_fstab args)]\<rparr>))
      else Inr w)"

definition state_absent :: "kwargs \<Rightarrow> world \<Rightarrow> outcome \<times> world" where
  "state_absent args w =
     (case unset_mount args w of
        Inl e \<Rightarrow> (Uncaught e, w)
      | Inr (changed, w1) \<Rightarrow> (ExitJson changed, w1))"

definition state_present :: "kwargs \<Rightarrow> world \<Rightarrow> outcome \<times> world" where
  "state_present args w =
     (case set_mount args w of
        Inl e \<Rightarrow> (Uncaught e, w)
      | Inr (changed, w1) \<Rightarrow> (ExitJson changed, w1))"

text \<open>The removal of the mount point that ends the state \<^verbatim>\<open>unmounted\<close>.\<close>

definition remove_mount_point :: "kwargs \<Rightarrow> bool \<Rightarrow> world \<Rightarrow> outcome \<times> world" where
  "remove_mount_point args changed w =
     (if name_exists w then
        (let w' = w\<lparr>trace := trace w @ [RmDir (kw_name args)]\<rparr> in
         case rmdir_err w of
           None \<Rightarrow> (ExitJson True, w'\<lparr>name_exists := False\<rparr>)
         | Some e \<Rightarrow>
             (FailJson (''Error removing mount point '' @ kw_name args @ '': '' @ e), w'))
      else (ExitJson changed, w))"

definition state_unmounted ::
  "kwargs \<Rightarrow> (string \<times> string) list \<Rightarrow> world \<Rightarrow> outcome \<times> world" where
  "state_unmounted args mounted_fs w =
     (case unset_mount args w of
        Inl e \<Rightarrow> (Uncaught e, w)
      | Inr (changed, w1) \<Rightarrow>
          if kw_name args \<in> set (map fst mounted_fs) then
            (case umount_fs args w1 of
               ((rc, msg), w2) \<Rightarrow>
                 if rc \<noteq> 0 then
                   (FailJson (''Error unmounting '' @ kw_name args @ '': '' @ msg), w2)
                 else remove_mount_point args True w2)
          else remove_mount_point args changed w1)"

text \<open>
  The mount step that ends the state \<^verbatim>\<open>mounted\<close>: \<open>changed\<close> is the flag as it
  stands after the table edit and the creation of the mount point.
\<close>

definition mount_step ::
  "kwargs \<Rightarrow> (string \<times> string) list \<Rightarrow> bool \<Rightarrow> world \<Rightarrow> outcome \<times> world" where
  "mount_step args mounted_fs changed w =
     (if kw_name args \<notin> set (map fst mounted_fs) \<or> changed then
        (case mount_fs args w of
           ((rc, msg), w1) \<Rightarrow>
             if rc \<noteq> 0 then
               (case unset_mount args w1 of
                  Inl e \<Rightarrow> (Uncaught e, w1)
                | Inr (c, w2) \<Rightarrow>
                    (FailJson (''Error mounting '' @ kw_name args @ '': '' @ msg), w2))
             else (ExitJson changed, w1))
      else (ExitJson changed, w))"

definition state_mounted ::
  "kwargs \<Rightarrow> (string \<times> string) list \<Rightarrow> world \<Rightarrow> outcome \<times> world" where
  "state_mounted args mounted_fs w =
     (case set_mount args w of
        Inl e \<Rightarrow> (Uncaught e, w)
      | Inr (changed, w1) \<Rightarrow>
          if \<not> name_exists w1 then
            (let w2 = w1\<lparr>trace := trace w1 @ [MakeDirs (kw_name args)]\<rparr> in
             case makedirs_err w1 of
               None \<Rightarrow> mount_step args mounted_fs True (w2\<lparr>name_exists := True\<rparr>)
             | Some e \<Rightarrow>
                 (case unset_mount args w2 of
                    Inl x \<Rightarrow> (Uncaught x, w2)
                  | Inr (c, w3) \<Rightarrow>
                      (FailJson (''Error making dir '' @ kw_name args @ '': '' @ e), w3)))
          else mount_step args mounted_fs changed w1)"

definition main :: "params \<Rightarrow> world \<Rightarrow> outcome \<times> world" where
  "main p w =
     (case main_args p of
        Inl msg \<Rightarrow> (FailJson msg, w)
      | Inr args \<Rightarrow>
          (case get_mounted_fs w of
             (Inl e, w1) \<Rightarrow> (Uncaught e, w1)
           | (Inr mounted_fs, w1) \<Rightarrow>
               if mounted_fs = [] then
                 (FailJson ''Error getting list of mounted file systems'', w1)
               else
                 (case ensure_fstab args w1 of
                    Inl e \<Rightarrow> (Uncaught e, w1)
                  | Inr w2 \<Rightarrow>
                      (case kw_state args of
                         Absent \<Rightarrow> state_absent args w2
                       | Present \<Rightarrow> state_present args w2
                       | Unmounted \<Rightarrow> state_unmounted args mounted_fs w2
                       | Mounted \<Rightarrow> state_mounted args mounted_fs w2))))"

subsection \<open>Vocabulary of the properties\<close>

text \<open>
  A line is an entry when none of the three guards of the two loops sends it through
  untouched: it is not blank, not a comment, and splits into six fields. It is an entry
  for the target \<open>nm\<close> when its second field is \<open>nm\<close>.
\<close>

definition is_entry :: "string \<Rightarrow> bool" where
  "is_entry line = (py_strip line \<noteq> [] \<and> \<not> startswith (py_strip line) ''#''
                    \<and> length (py_split line) = 6)"

definition is_match :: "string \<Rightarrow> string \<Rightarrow> bool" where
  "is_match nm line = (is_entry line \<and> name (unpack (py_split line)) = nm)"

definition field_list :: "'a entry_scheme \<Rightarrow> string list" where
  "field_list d = [src d, name d, fstype d, opts d, dump d, passno d]"

text \<open>The lines of the table file of a system; no file, no lines.\<close>

definition table_lines :: "world \<Rightarrow> string list" where
  "table_lines w = (case fstab_file w of None \<Rightarrow> [] | Some f \<Rightarrow> readlines f)"

definition count_entries :: "string \<Rightarrow> world \<Rightarrow> nat" where
  "count_entries nm w = length (filter (is_match nm) (table_lines w))"

text \<open>A field is well formed when it is not empty and has no whitespace.\<close>

definition wf_field :: "string \<Rightarrow> bool" where
  "wf_field s = (s \<noteq> [] \<and> list_all (\<lambda>c. \<not> isspace c) s)"

text \<open>
  A specification is well formed when its six fields are, and the source does not start
  with the comment sign.
\<close>

definition wf_spec :: "'a entry_scheme \<Rightarrow> bool" where
  "wf_spec d = (list_all wf_field (field_list d) \<and> \<not> startswith (src d) ''#'')"

text \<open>A file content is terminated when it is empty or ends with a newline.\<close>

definition terminated :: "string \<Rightarrow> bool" where
  "terminated f = (f = [] \<or> last f = CHR 0x0A)"

text \<open>A whole line ends with its only newline; a part line has none.\<close>

definition whole_line :: "string \<Rightarrow> bool" where
  "whole_line l = (l \<noteq> [] \<and> last l = CHR 0x0A \<and> CHR 0x0A \<notin> set (butlast l))"

definition part_line :: "string \<Rightarrow> bool" where
  "part_line l = (l \<noteq> [] \<and> CHR 0x0A \<notin> set l)"

fun proper :: "string list \<Rightarrow> bool" where
  "proper [] = True"
| "proper [l] = (whole_line l \<or> part_line l)"
| "proper (l # ls) = (whole_line l \<and> proper ls)"

text \<open>The events a run has added to the trace, and whether a mount command is one.\<close>

definition new_events :: "world \<Rightarrow> world \<Rightarrow> event list" where
  "new_events w w' = drop (length (trace w)) (trace w')"

fun is_mount_event :: "event \<Rightarrow> bool" where
  "is_mount_event (RunMount cmd) = True"
| "is_mount_event e = False"

fun is_write_event :: "event \<Rightarrow> bool" where
  "is_write_event (WriteFstab dest content) = True"
| "is_write_event e = False"

text \<open>
  How \<^verbatim>\<open>set_mount\<close> may rewrite a line \<open>l\<close> into \<open>l'\<close>: an entry for the target is
  replaced by the line of the specification, or kept when its fields are those of the
  specification already; every other line is kept.
\<close>

definition rewritten :: "mount_args \<Rightarrow> string \<Rightarrow> string \<Rightarrow> bool" where
  "rewritten args l l' =
     (if is_match (name args) l
      then l' = new_line args \<or> (l' = l \<and> py_split l = field_list args)
      else l' = l)"

text \<open>The parameters of a request are newline free when none of its six fields has a newline.\<close>

definition newline_free :: "params \<Rightarrow> bool" where
  "newline_free p =
     (CHR 0x0A \<notin> set (p_src p) \<and> CHR 0x0A \<notin> set (p_name p) \<and> CHR 0x0A \<notin> set (p_fstype p)
      \<and> (case p_opts p of None \<Rightarrow> True | Some v \<Rightarrow> CHR 0x0A \<notin> set v)
      \<and> (case p_dump p of None \<Rightarrow> True | Some v \<Rightarrow> CHR 0x0A \<notin> set v)
      \<and> (case p_passno p of None \<Rightarrow> True | Some v \<Rightarrow> CHR 0x0A \<notin> set v))"

text \<open>
  A run of \<^verbatim>\<open>main\<close> reaches the branch of the requested state when the parameters
  are accepted, the query of the mounted file systems returns a dictionary \<open>mfs\<close> that is
  not empty, and the table file exists or could be created; \<open>args\<close> is the dictionary
  built from the parameters and \<open>w2\<close> the system at that point.
\<close>

definition dispatched ::
  "params \<Rightarrow> world \<Rightarrow> kwargs \<Rightarrow> (string \<times> string) list \<Rightarrow> world \<Rightarrow> bool" where
  "dispatched p w args mfs w2 =
     (main_args p = Inr args \<and> fst (get_mounted_fs w) = Inr mfs \<and> mfs \<noteq> []
      \<and> ensure_fstab args (snd (get_mounted_fs w)) = Inr w2)"

text \<open>
  A table file content holds the requested entry when it has an entry for the target and
  every entry for the target has the fields of the request.
\<close>

definition holds_entry :: "mount_args \<Rightarrow> string \<Rightarrow> bool" where
  "holds_entry args f =
     ((\<exists>l\<in>set (readlines f). is_match (name args) l)
      \<and> (\<forall>l\<in>set (readlines f). is_match (name args) l \<longrightarrow> py_split l = field_list args))"

subsection \<open>Concrete inputs\<close>

text \<open>
  The request of the module's own example (a DVD drive mounted read-only) as parameters
  and as keyword arguments, for the state \<open>st\<close>, and the line it stands for in the
  table.
\<close>

definition dvd_params :: "state \<Rightarrow> params" where
  "dvd_params st = \<lparr>p_state = st, p_name = ''/mnt/dvd'', p_opts = Some ''ro'', p_passno = None,
                    p_dump = None, p_src = ''/dev/sr0'', p_fstype = ''iso9660'',
                    p_fstab = ''/etc/fstab''\<rparr>"

definition dvd_kw :: "state \<Rightarrow> kwargs" where
  "dvd_kw st = \<lparr>kw_name = ''/mnt/dvd'', kw_src = ''/dev/sr0'', kw_fstype = ''iso9660'',
                kw_state = st, kw_passno = None, kw_opts = Some ''ro'', kw_dump = None,
                kw_fstab = ''/etc/fstab''\<rparr>"

definition dvd_line :: string where
  "dvd_line = ''/dev/sr0 /mnt/dvd iso9660 ro 0 0'' @ [CHR 0x0A]"

text \<open>A table with two entries for the mount point of the DVD, both unlike the request.\<close>

definition two_dvd_lines :: string where
  "two_dvd_lines = ''/dev/sr1 /mnt/dvd iso9660 ro 0 0'' @ [CHR 0x0A]
                   @ ''/dev/sr2 /mnt/dvd udf rw 0 0'' @ [CHR 0x0A]"

text \<open>
  A table of a comment and a line of one field, the last line without a newline; and the
  three opaque lines of the specification's example, the last one without a newline.
\<close>

definition unterminated_table :: string where
  "unterminated_table = ''# keep me'' @ [CHR 0x0A] @ ''UUID=1234''"

definition opaque_table :: string where
  "opaque_table = ''only three fields here'' @ [CHR 0x0A] @ [CHR 0x0A] @ ''# keep me''"

text \<open>
  Systems with the table file content \<open>f\<close>. In the quiet one every action succeeds, the
  mount point exists and the root file system is the only one mounted. Each of the others
  differs from it in one respect: the DVD is mounted already; the mount command fails; the
  mount point does not exist and cannot be created; the DVD is still listed as mounted
  although its mount point does not exist (a stale list); the query of the mounted file
  systems fails.
\<close>

definition quiet_world :: "string \<Rightarrow> world" where
  "quiet_world f =
     \<lparr>mount_l = (0, ''/dev/sda1 on / type ext4 (rw)'' @ [CHR 0x0A]),
      fstab_file = Some f, fstab_dir_exists = True, fstab_dir_err = None,
      name_exists = True, name_ismount = False, makedirs_err = None, rmdir_err = None,
      mount_cmd = (0, [], []), umount_cmd = (0, [], []), trace = []\<rparr>"

definition dvd_mounted_world :: "string \<Rightarrow> world" where
  "dvd_mounted_world f =
     (quiet_world f)\<lparr>mount_l := (0, ''/dev/sr0 on /mnt/dvd type iso9660 (ro)'' @ [CHR 0x0A]),
                     name_ismount := True\<rparr>"

definition failing_mount_world :: "string \<Rightarrow> world" where
  "failing_mount_world f = (quiet_world f)\<lparr>mount_cmd := (32, [], ''mount: no medium found'')\<rparr>"

definition no_dir_world :: "string \<Rightarrow> world" where
  "no_dir_world f =
     (quiet_world f)\<lparr>name_exists := False, makedirs_err := Some ''Permission denied''\<rparr>"

definition stale_mount_world :: "string \<Rightarrow> world" where
  "stale_mount_world f = (dvd_mounted_world f)\<lparr>name_exists := False, name_ismount := False\<rparr>"

definition failing_query_world :: "string \<Rightarrow> world" where
  "failing_query_world f = (quiet_world f)\<lparr>mount_l := (1, [])\<rparr>"

text \<open>A system after the query of the mounted file systems.\<close>

definition queried :: "world \<Rightarrow> world" where
  "queried w = w\<lparr>trace := trace w @ [QueryMounts]\<rparr>"

section \<open>Properties\<close>

subsection \<open>Lines of a file\<close>

lemma concat_readlines: "concat (readlines s) = s"
  by (induction s) (auto split: list.splits)

lemma readlines_Nil_iff: "readlines s = [] \<longleftrightarrow> s = []"
  by (cases s) (auto split: list.splits)

lemma readlines_whole: "whole_line l \<Longrightarrow> readlines (l @ s) = l # readlines s"
proof (induction l)
  case Nil
  then show ?case by (simp add: whole_line_def)
next
  case (Cons c l)
  show ?case
  proof (cases "l = []")
    case True
    with Cons.prems show ?thesis by (simp add: whole_line_def)
  next
    case False
    with Cons.prems have w: "whole_line l" and c: "c \<noteq> CHR 0x0A"
      by (auto simp: whole_line_def)
    from Cons.IH [OF w] c show ?thesis by simp
  qed
qed

lemma readlines_part: "part_line l \<Longrightarrow> readlines l = [l]"
proof (induction l)
  case Nil
  then show ?case by (simp add: part_line_def)
next
  case (Cons c l)
  show ?case
  proof (cases "l = []")
    case True
    with Cons.prems show ?thesis by (simp add: part_line_def)
  next
    case False
    with Cons.prems have "part_line l" and "c \<noteq> CHR 0x0A"
      by (auto simp: part_line_def)
    with Cons.IH show ?thesis by simp
  qed
qed

lemma readlines_concat: "proper ls \<Longrightarrow> readlines (concat ls) = ls"
proof (induction ls rule: proper.induct)
  case 1
  then show ?case by simp
next
  case (2 l)
  then show ?case
    using readlines_whole [of l "[]"] readlines_part [of l] by auto
next
  case (3 l v va)
  then show ?case by (simp add: readlines_whole)
qed

lemma proper_readlines: "proper (readlines s)"
proof (induction s)
  case Nil
  then show ?case by simp
next
  case (Cons c s)
  show ?case
  proof (cases "c = CHR 0x0A")
    case True
    with Cons show ?thesis
      by (cases "readlines s") (auto simp: whole_line_def)
  next
    case False
    show ?thesis
    proof (cases "readlines s")
      case Nil
      with False show ?thesis by (simp add: part_line_def)
    next
      case (Cons l ls)
      with Cons.IH False show ?thesis
        by (cases ls) (auto simp: whole_line_def part_line_def)
    qed
  qed
qed

subsection \<open>Splitting and formatting a line\<close>

lemma split_ws_word:
  "list_all (\<lambda>c. \<not> isspace c) w \<Longrightarrow> split_ws cur (w @ rest) = split_ws (cur @ w) rest"
  by (induction w arbitrary: cur) auto

lemma split_ws_field:
  assumes "wf_field a" and "isspace c"
  shows "split_ws [] (a @ c # rest) = a # split_ws [] rest"
  using assms split_ws_word [of a "[]" "c # rest"] by (simp add: wf_field_def)

lemma isspace_space [simp]: "isspace (CHR '' '')"
  by (simp add: isspace_def)

lemma isspace_nl [simp]: "isspace (CHR 0x0A)"
  by (simp add: isspace_def)

lemma py_split_new_line:
  assumes "list_all wf_field (field_list d)"
  shows "py_split (new_line d) = field_list d"
  using assms
  by (simp add: py_split_def new_line_def field_list_def split_ws_field)

lemma six_fields:
  "length fs = 6 \<Longrightarrow> fs = [fs ! 0, fs ! 1, fs ! 2, fs ! 3, fs ! 4, fs ! 5]"
  by (auto simp: list_eq_iff_nth_eq numeral_eq_Suc less_Suc_eq)

lemma field_list_unpack: "length fs = 6 \<Longrightarrow> field_list (unpack fs) = fs"
  using six_fields [of fs] by (simp add: field_list_def unpack_def)

lemma py_strip_Nil_iff: "py_strip s = [] \<longleftrightarrow> list_all isspace s"
proof -
  have "dropWhile isspace (rev (dropWhile isspace s)) = [] \<longleftrightarrow> dropWhile isspace s = []"
  proof
    assume "dropWhile isspace (rev (dropWhile isspace s)) = []"
    then have a: "\<forall>x\<in>set (dropWhile isspace s). isspace x"
      by (simp add: dropWhile_eq_Nil_conv)
    show "dropWhile isspace s = []"
    proof (rule ccontr)
      assume "dropWhile isspace s \<noteq> []"
      then have "\<not> isspace (hd (dropWhile isspace s))" by (rule hd_dropWhile)
      moreover have "hd (dropWhile isspace s) \<in> set (dropWhile isspace s)"
        using \<open>dropWhile isspace s \<noteq> []\<close> by simp
      ultimately show False using a by blast
    qed
  next
    assume "dropWhile isspace s = []"
    then show "dropWhile isspace (rev (dropWhile isspace s)) = []"
      by (simp del: dropWhile_eq_Nil_conv)
  qed
  then show ?thesis
    by (simp add: py_strip_def dropWhile_eq_Nil_conv list_all_iff)
qed

lemma rev_dropWhile_rev_hd:
  "rev (dropWhile P (rev xs)) \<noteq> [] \<Longrightarrow> hd (rev (dropWhile P (rev xs))) = hd xs"
proof (induction xs rule: rev_induct)
  case Nil
  then show ?case by simp
next
  case (snoc x xs)
  then show ?case by (cases "P x"; cases xs) auto
qed

lemma py_strip_hd:
  assumes "s \<noteq> []" and "\<not> isspace (hd s)"
  shows "py_strip s \<noteq> [] \<and> hd (py_strip s) = hd s"
proof -
  from assms have d: "dropWhile isspace s = s" by (cases s) auto
  from assms have "\<not> list_all isspace s" by (cases s) auto
  then have n: "py_strip s \<noteq> []" by (simp add: py_strip_Nil_iff)
  with d show ?thesis
    using rev_dropWhile_rev_hd [of isspace s] by (simp add: py_strip_def)
qed

lemma startswith_hash: "startswith s ''#'' \<longleftrightarrow> s \<noteq> [] \<and> hd s = CHR ''#''"
  by (cases s) (auto simp: startswith_def)

lemma is_match_new_line:
  assumes "wf_spec d"
  shows "is_match (name d) (new_line d)"
proof -
  from assms have fl: "list_all wf_field (field_list d)" and h: "\<not> startswith (src d) ''#''"
    by (simp_all add: wf_spec_def)
  from fl have s: "src d \<noteq> []" "\<not> isspace (hd (src d))"
    by (cases "src d"; simp add: field_list_def wf_field_def)+
  then have "new_line d \<noteq> []" "hd (new_line d) = hd (src d)"
    by (simp_all add: new_line_def)
  with s py_strip_hd [of "new_line d"]
  have "py_strip (new_line d) \<noteq> []" "hd (py_strip (new_line d)) = hd (src d)"
    by simp_all
  with h s have "\<not> startswith (py_strip (new_line d)) ''#''"
    by (simp add: startswith_hash)
  with \<open>py_strip (new_line d) \<noteq> []\<close> py_split_new_line [OF fl] show ?thesis
    by (simp add: is_match_def is_entry_def field_list_def unpack_def)
qed

lemma whole_line_new_line:
  assumes "CHR 0x0A \<notin> set (concat (field_list d))"
  shows "whole_line (new_line d)"
  using assms by (simp add: whole_line_def new_line_def field_list_def butlast_append)

lemma wf_field_no_nl: "wf_field s \<Longrightarrow> CHR 0x0A \<notin> set s"
  by (auto simp: wf_field_def list_all_iff)

lemma wf_spec_whole_line: "wf_spec d \<Longrightarrow> whole_line (new_line d)"
  by (rule whole_line_new_line) (auto simp: wf_spec_def field_list_def dest: wf_field_no_nl)

subsection \<open>The two loops\<close>

lemma new_line_cong: "field_list d = field_list d' \<Longrightarrow> new_line d = new_line d'"
  by (simp add: field_list_def new_line_def)

lemma compare_fields_result:
  assumes "compare_fields args ld ch = (ld', ch')"
  shows "field_list ld' = [src args, name ld, fstype args, opts args, dump args, passno args]"
    and "ch' \<longleftrightarrow> ch \<or> field_list ld \<noteq> [src args, name ld, fstype args, opts args, dump args, passno args]"
  using assms
  by (auto simp: compare_fields_def field_list_def Let_def split: if_splits)

lemma set_mount_step_other:
  assumes "\<not> is_match (name args) line"
  shows "set_mount_step args line (tw, ex, ch) = (tw @ [line], ex, ch)"
  using assms by (auto simp: set_mount_step_def is_match_def is_entry_def Let_def)

lemma set_mount_step_match:
  assumes "is_match (name args) line"
  shows "set_mount_step args line (tw, ex, ch) =
           (tw @ [if ch \<or> py_split line \<noteq> field_list args then new_line args else line],
            True, ch \<or> py_split line \<noteq> field_list args)"
proof -
  let ?ld = "unpack (py_split line)"
  obtain ld' ch' where c: "compare_fields args ?ld ch = (ld', ch')"
    by (cases "compare_fields args ?ld ch") auto
  from assms have len: "length (py_split line) = 6" and nm: "name ?ld = name args"
    and g: "py_strip line \<noteq> []" "\<not> startswith (py_strip line) ''#''"
    by (simp_all add: is_match_def is_entry_def)
  from len have fl: "field_list ?ld = py_split line" by (rule field_list_unpack)
  have t: "[src args, name ?ld, fstype args, opts args, dump args, passno args] = field_list args"
    using nm by (simp add: field_list_def)
  have a: "field_list ld' = field_list args"
    using compare_fields_result(1) [OF c] unfolding t .
  have b: "ch' \<longleftrightarrow> ch \<or> py_split line \<noteq> field_list args"
    using compare_fields_result(2) [OF c] unfolding t fl .
  from a have "new_line ld' = new_line args" by (rule new_line_cong)
  with b c len nm g show ?thesis
    by (simp add: set_mount_step_def Let_def)
qed

lemma set_mount_loop_shape:
  "\<exists>out. set_mount_loop args lines (tw, ex, ch) =
           (tw @ out, ex \<or> (\<exists>l\<in>set lines. is_match (name args) l),
            ch \<or> (\<exists>l\<in>set lines. is_match (name args) l \<and> py_split l \<noteq> field_list args))
       \<and> list_all2 (rewritten args) lines out
       \<and> (\<not> (ch \<or> (\<exists>l\<in>set lines. is_match (name args) l \<and> py_split l \<noteq> field_list args))
            \<longrightarrow> out = lines)"
proof (induction lines arbitrary: tw ex ch)
  case Nil
  then show ?case by simp
next
  case (Cons line rest)
  show ?case
  proof (cases "is_match (name args) line")
    case False
    from Cons.IH [of "tw @ [line]" ex ch] obtain out where
      "set_mount_loop args rest (tw @ [line], ex, ch) =
         (tw @ [line] @ out, ex \<or> (\<exists>l\<in>set rest. is_match (name args) l),
          ch \<or> (\<exists>l\<in>set rest. is_match (name args) l \<and> py_split l \<noteq> field_list args))"
      and "list_all2 (rewritten args) rest out"
      and "\<not> (ch \<or> (\<exists>l\<in>set rest. is_match (name args) l \<and> py_split l \<noteq> field_list args))
            \<longrightarrow> out = rest"
      by auto
    moreover from False have "rewritten args line line" by (simp add: rewritten_def)
    ultimately show ?thesis using False
      by (intro exI [of _ "line # out"]) (auto simp: set_mount_step_other)
  next
    case True
    let ?ch = "ch \<or> py_split line \<noteq> field_list args"
    let ?o = "if ?ch then new_line args else line"
    from Cons.IH [of "tw @ [?o]" True ?ch] obtain out where
      "set_mount_loop args rest (tw @ [?o], True, ?ch) =
         (tw @ [?o] @ out, True \<or> (\<exists>l\<in>set rest. is_match (name args) l),
          ?ch \<or> (\<exists>l\<in>set rest. is_match (name args) l \<and> py_split l \<noteq> field_list args))"
      and "list_all2 (rewritten args) rest out"
      and "\<not> (?ch \<or> (\<exists>l\<in>set rest. is_match (name args) l \<and> py_split l \<noteq> field_list args))
            \<longrightarrow> out = rest"
      by auto
    moreover from True have "rewritten args line ?o" by (simp add: rewritten_def)
    ultimately show ?thesis using True
      by (intro exI [of _ "?o # out"]) (auto simp: set_mount_step_match)
  qed
qed

lemma unset_mount_step_eq:
  "unset_mount_step args line (tw, ch) =
     (if is_match (name args) line then (tw, True) else (tw @ [line], ch))"
  by (simp add: unset_mount_step_def is_match_def is_entry_def Let_def)

lemma unset_mount_loop_eq:
  "unset_mount_loop args lines (tw, ch) =
     (tw @ filter (\<lambda>l. \<not> is_match (name args) l) lines,
      ch \<or> (\<exists>l\<in>set lines. is_match (name args) l))"
  by (induction lines arbitrary: tw ch) (auto simp: unset_mount_step_eq)

subsection \<open>\<^verbatim>\<open>set_mount\<close> and \<^verbatim>\<open>unset_mount\<close> on a table file\<close>

lemma name_set_mount_args [simp]: "name (set_mount_args kw) = kw_name kw"
  by (simp add: set_mount_args_def)

lemma fstab_set_mount_args [simp]: "fstab (set_mount_args kw) = kw_fstab kw"
  by (simp add: set_mount_args_def)

lemma name_unset_mount_args [simp]: "name (unset_mount_args kw) = kw_name kw"
  by (simp add: unset_mount_args_def)

lemma fstab_unset_mount_args [simp]: "fstab (unset_mount_args kw) = kw_fstab kw"
  by (simp add: unset_mount_args_def)

lemma set_mount_cases:
  assumes "fstab_file w = Some f"
  obtains
    (unchanged) "set_mount kw w = Inr (False, w)"
      and "\<exists>l\<in>set (readlines f). is_match (kw_name kw) l"
      and "\<forall>l\<in>set (readlines f). is_match (kw_name kw) l \<longrightarrow> py_split l = field_list (set_mount_args kw)"
  | (rewrote) out where
      "set_mount kw w = Inr (True, write_fstab out (kw_fstab kw) w)"
      and "list_all2 (rewritten (set_mount_args kw)) (readlines f) out"
      and "\<exists>l\<in>set (readlines f). is_match (kw_name kw) l \<and> py_split l \<noteq> field_list (set_mount_args kw)"
  | (appended)
      "set_mount kw w = Inr (True, write_fstab (readlines f @ [new_line (set_mount_args kw)]) (kw_fstab kw) w)"
      and "\<forall>l\<in>set (readlines f). \<not> is_match (kw_name kw) l"
proof -
  let ?args = "set_mount_args kw"
  let ?ex = "\<exists>l\<in>set (readlines f). is_match (kw_name kw) l"
  let ?ch = "\<exists>l\<in>set (readlines f). is_match (kw_name kw) l \<and> py_split l \<noteq> field_list ?args"
  from set_mount_loop_shape [of ?args "readlines f" "[]" False False]
  obtain out where
    loop: "set_mount_loop ?args (readlines f) ([], False, False) = (out, ?ex, ?ch)"
    and rel: "list_all2 (rewritten ?args) (readlines f) out"
    and same: "\<not> ?ch \<longrightarrow> out = readlines f"
    by auto
  show thesis
  proof (cases ?ex)
    case False
    then have "\<not> ?ch" by blast
    with same have "out = readlines f" by simp
    with loop False assms
    have "set_mount kw w = Inr (True, write_fstab (readlines f @ [new_line ?args]) (kw_fstab kw) w)"
      by (simp add: set_mount_def)
    with False show thesis by (intro appended) auto
  next
    case ex: True
    show thesis
    proof (cases ?ch)
      case True
      with loop ex assms have "set_mount kw w = Inr (True, write_fstab out (kw_fstab kw) w)"
        by (simp add: set_mount_def)
      with rel True show thesis by (intro rewrote)
    next
      case False
      with loop ex assms have "set_mount kw w = Inr (False, w)"
        by (simp add: set_mount_def)
      with ex False show thesis by (intro unchanged) auto
    qed
  qed
qed

lemma set_mount_settled:
  assumes "fstab_file w = Some f"
    and "\<exists>l\<in>set (readlines f). is_match (kw_name kw) l"
    and "\<forall>l\<in>set (readlines f). is_match (kw_name kw) l \<longrightarrow> py_split l = field_list (set_mount_args kw)"
  shows "set_mount kw w = Inr (False, w)"
  using assms(1)
proof (cases rule: set_mount_cases [where kw = kw])
  case unchanged
  then show ?thesis by simp
next
  case (rewrote out)
  with assms show ?thesis by blast
next
  case appended
  with assms show ?thesis by blast
qed

lemma unset_mount_eq:
  assumes "fstab_file w = Some f"
  shows "unset_mount kw w =
           Inr (\<exists>l\<in>set (readlines f). is_match (kw_name kw) l,
                if \<exists>l\<in>set (readlines f). is_match (kw_name kw) l
                then write_fstab (filter (\<lambda>l. \<not> is_match (kw_name kw) l) (readlines f)) (kw_fstab kw) w
                else w)"
  using assms unset_mount_loop_eq [of "unset_mount_args kw" "readlines f" "[]" False]
  by (simp add: unset_mount_def)

lemma proper_Cons: "whole_line l \<Longrightarrow> proper ls \<Longrightarrow> proper (l # ls)"
  by (cases ls) auto

lemma proper_filter: "proper ls \<Longrightarrow> proper (filter P ls)"
proof (induction ls)
  case Nil
  then show ?case by simp
next
  case (Cons l ls)
  show ?case
  proof (cases ls)
    case Nil
    with Cons.prems show ?thesis by simp
  next
    case (Cons a as)
    with Cons.prems have "whole_line l" "proper ls" by simp_all
    with Cons.IH show ?thesis by (simp add: proper_Cons)
  qed
qed

lemma proper_rewritten:
  assumes "list_all2 (rewritten args) ls out" and "whole_line (new_line args)" and "proper ls"
  shows "proper out"
  using assms(1,3)
proof (induction rule: list_all2_induct)
  case Nil
  then show ?case by simp
next
  case (Cons l ls l' out)
  from Cons.hyps(1) have l': "l' = l \<or> l' = new_line args"
    by (auto simp: rewritten_def split: if_splits)
  show ?case
  proof (cases ls)
    case Nil
    with Cons.hyps(2) have "out = []" by simp
    with Nil Cons.prems l' assms(2) show ?thesis by auto
  next
    case (Cons a as)
    with Cons.prems have "whole_line l" "proper ls" by simp_all
    with Cons.IH l' assms(2) show ?thesis by (auto intro: proper_Cons)
  qed
qed

lemma whole_lines_terminated:
  "terminated f \<Longrightarrow> list_all whole_line (readlines f)"
proof (induction f)
  case Nil
  then show ?case by simp
next
  case (Cons c cs)
  from Cons.prems have t: "terminated cs" by (auto simp: terminated_def split: if_splits)
  show ?case
  proof (cases "c = CHR 0x0A")
    case True
    with Cons.IH [OF t] show ?thesis by (simp add: whole_line_def)
  next
    case False
    with Cons.prems have "cs \<noteq> []" by (auto simp: terminated_def)
    then obtain l ls where r: "readlines cs = l # ls"
      by (cases "readlines cs") (auto simp: readlines_Nil_iff)
    with Cons.IH [OF t] False show ?thesis
      by (auto simp: whole_line_def)
  qed
qed

lemma proper_snoc: "list_all whole_line ls \<Longrightarrow> whole_line l \<or> part_line l \<Longrightarrow> proper (ls @ [l])"
  by (induction ls) (auto intro: proper_Cons)

lemma new_line_neq:
  assumes "list_all wf_field (field_list d)" and "py_split l \<noteq> field_list d"
  shows "new_line d \<noteq> l"
  using assms py_split_new_line [of d] by auto

lemma list_all2_rewritten_neq:
  assumes "list_all2 (rewritten args) ls out"
    and "\<exists>l\<in>set ls. is_match (name args) l \<and> py_split l \<noteq> field_list args"
    and "list_all wf_field (field_list args)"
  shows "out \<noteq> ls"
  using assms(1,2)
proof (induction rule: list_all2_induct)
  case Nil
  then show ?case by simp
next
  case (Cons l ls l' out)
  then show ?case
    using new_line_neq [OF assms(3)] by (auto simp: rewritten_def split: if_splits)
qed

lemma list_all2_rewritten_settled:
  assumes "list_all2 (rewritten args) ls out" and "wf_spec args"
  shows "(\<forall>l\<in>set out. is_match (name args) l \<longrightarrow> py_split l = field_list args)
       \<and> ((\<exists>l\<in>set ls. is_match (name args) l) \<longrightarrow> (\<exists>l\<in>set out. is_match (name args) l))"
  using assms(1)
proof (induction rule: list_all2_induct)
  case Nil
  then show ?case by simp
next
  case (Cons l ls l' out)
  from assms(2) have m: "is_match (name args) (new_line args)" by (rule is_match_new_line)
  from assms(2) have s: "py_split (new_line args) = field_list args"
    by (simp add: wf_spec_def py_split_new_line)
  from Cons m s show ?case
    by (auto simp: rewritten_def split: if_splits)
qed

lemma table_lines_write_filter:
  "table_lines (write_fstab (filter P (readlines f)) d w) = filter P (readlines f)"
  by (simp add: table_lines_def write_fstab_def readlines_concat proper_filter proper_readlines)

lemma new_events_same [simp]: "new_events w w = []"
  by (simp add: new_events_def)

lemma new_events_write [simp]:
  "new_events w (write_fstab ls d w) = [WriteFstab d (concat ls)]"
  by (simp add: new_events_def write_fstab_def)

lemma unset_mount_table_lines:
  assumes "fstab_file w = Some f"
  shows "\<exists>c w'. unset_mount kw w = Inr (c, w')
           \<and> table_lines w' = filter (\<lambda>l. \<not> is_match (kw_name kw) l) (readlines f)
           \<and> (c \<longleftrightarrow> (\<exists>l\<in>set (readlines f). is_match (kw_name kw) l))"
proof -
  let ?P = "\<lambda>l. \<not> is_match (kw_name kw) l"
  let ?c = "\<exists>l\<in>set (readlines f). is_match (kw_name kw) l"
  let ?w' = "if ?c then write_fstab (filter ?P (readlines f)) (kw_fstab kw) w else w"
  have u: "unset_mount kw w = Inr (?c, ?w')" using assms by (rule unset_mount_eq)
  have t: "table_lines ?w' = filter ?P (readlines f)"
  proof (cases ?c)
    case True
    then show ?thesis by (simp add: table_lines_write_filter)
  next
    case False
    then have "filter ?P (readlines f) = readlines f" by (simp add: filter_id_conv)
    with False assms show ?thesis by (simp add: table_lines_def)
  qed
  from u t show ?thesis by blast
qed

lemma reconcile_shape:
  assumes "set_mount kw w = Inr (c, w') \<or> unset_mount kw w = Inr (c, w')"
  shows "(if c then \<exists>ls. w' = write_fstab ls (kw_fstab kw) w else w' = w)
       \<and> length (filter is_write_event (new_events w w')) = (if c then 1 else 0)"
proof (cases "fstab_file w")
  case None
  with assms show ?thesis by (simp add: set_mount_def unset_mount_def)
next
  case (Some f)
  from assms show ?thesis
  proof
    assume s: "set_mount kw w = Inr (c, w')"
    from Some show ?thesis
    proof (cases rule: set_mount_cases [where kw = kw])
      case unchanged
      with s show ?thesis by simp
    next
      case (rewrote out)
      with s show ?thesis by auto
    next
      case appended
      with s show ?thesis by auto
    qed
  next
    assume "unset_mount kw w = Inr (c, w')"
    with Some show ?thesis by (auto simp: unset_mount_eq)
  qed
qed

lemma changed_frame:
  assumes "if c then \<exists>ls. w1 = write_fstab ls d w else w1 = w" and "fstab_file w \<noteq> None"
  shows "name_exists w1 = name_exists w \<and> name_ismount w1 = name_ismount w
       \<and> makedirs_err w1 = makedirs_err w \<and> mount_cmd w1 = mount_cmd w
       \<and> fstab_file w1 \<noteq> None
       \<and> (\<exists>es. trace w1 = trace w @ es \<and> list_all is_write_event es)"
  using assms by (cases c) (auto simp: write_fstab_def)

lemma set_mount_frame:
  assumes "set_mount kw w = Inr (c, w1)"
  shows "name_exists w1 = name_exists w \<and> name_ismount w1 = name_ismount w
       \<and> makedirs_err w1 = makedirs_err w \<and> mount_cmd w1 = mount_cmd w
       \<and> fstab_file w1 \<noteq> None
       \<and> (\<exists>es. trace w1 = trace w @ es \<and> list_all is_write_event es)"
proof -
  from assms have f0: "fstab_file w \<noteq> None"
    by (cases "fstab_file w") (auto simp: set_mount_def)
  from assms reconcile_shape [of kw w c w1]
  have "if c then \<exists>ls. w1 = write_fstab ls (kw_fstab kw) w else w1 = w" by simp
  then show ?thesis using f0 by (rule changed_frame)
qed

lemma unset_mount_frame:
  assumes "unset_mount kw w = Inr (c, w1)"
  shows "name_exists w1 = name_exists w \<and> name_ismount w1 = name_ismount w
       \<and> makedirs_err w1 = makedirs_err w \<and> mount_cmd w1 = mount_cmd w
       \<and> fstab_file w1 \<noteq> None
       \<and> (\<exists>es. trace w1 = trace w @ es \<and> list_all is_write_event es)"
proof -
  from assms have f0: "fstab_file w \<noteq> None"
    by (cases "fstab_file w") (auto simp: unset_mount_def)
  from assms reconcile_shape [of kw w c w1]
  have "if c then \<exists>ls. w1 = write_fstab ls (kw_fstab kw) w else w1 = w" by simp
  then show ?thesis using f0 by (rule changed_frame)
qed

lemma unset_mount_total:
  assumes "fstab_file w = Some f"
  shows "\<exists>c w'. unset_mount kw w = Inr (c, w')"
  using unset_mount_eq [OF assms] by simp

lemma unset_mount_count:
  assumes "unset_mount kw w = Inr (c, w')"
  shows "count_entries (kw_name kw) w' = 0"
proof -
  from assms obtain f where f: "fstab_file w = Some f"
    by (cases "fstab_file w") (auto simp: unset_mount_def)
  from unset_mount_table_lines [OF f, of kw] assms
  have "table_lines w' = filter (\<lambda>l. \<not> is_match (kw_name kw) l) (readlines f)" by auto
  then show ?thesis by (simp add: count_entries_def)
qed

lemma unset_mount_lines_after:
  assumes "unset_mount kw w = Inr (c, w')"
  shows "table_lines w' = filter (\<lambda>l. \<not> is_match (kw_name kw) l) (table_lines w)"
proof -
  from assms obtain f where f: "fstab_file w = Some f"
    by (cases "fstab_file w") (auto simp: unset_mount_def)
  from unset_mount_table_lines [OF f, of kw] assms f show ?thesis
    by (auto simp: table_lines_def)
qed

lemma table_lines_cong: "fstab_file w' = fstab_file w \<Longrightarrow> table_lines w' = table_lines w"
  by (simp add: table_lines_def)

lemma fstab_file_mount_fs [simp]: "fstab_file (snd (mount_fs kw w)) = fstab_file w"
  by (simp add: mount_fs_def Let_def split: prod.splits)

lemma count_entries_cong: "fstab_file w' = fstab_file w \<Longrightarrow> count_entries nm w' = count_entries nm w"
  by (simp add: count_entries_def table_lines_def)

lemma count_entries_trace [simp]:
  "count_entries nm (w\<lparr>trace := t\<rparr>) = count_entries nm w"
  by (simp add: count_entries_def table_lines_def)

lemma count_entries_name_exists [simp]:
  "count_entries nm (w\<lparr>name_exists := b\<rparr>) = count_entries nm w"
  by (simp add: count_entries_def table_lines_def)

lemma proper_butlast: "proper ls \<Longrightarrow> list_all whole_line (butlast ls)"
  by (induction ls rule: proper.induct) auto

lemma proper_last: "proper ls \<Longrightarrow> ls \<noteq> [] \<Longrightarrow> whole_line (last ls) \<or> part_line (last ls)"
  by (induction ls rule: proper.induct) auto

lemma whole_line_append: "part_line a \<Longrightarrow> whole_line b \<Longrightarrow> whole_line (a @ b)"
  by (auto simp: part_line_def whole_line_def butlast_append)

lemma concat_butlast_last: "ls \<noteq> [] \<Longrightarrow> concat ls = concat (butlast ls) @ last ls"
  using append_butlast_last_id [of ls] concat_append [of "butlast ls" "[last ls]"] by simp

lemma readlines_append_line:
  assumes "whole_line nl"
  shows "readlines (f @ nl) =
           (if terminated f then readlines f @ [nl]
            else butlast (readlines f) @ [last (readlines f) @ nl])"
proof (cases "terminated f")
  case True
  with assms have "proper (readlines f @ [nl])"
    by (intro proper_snoc whole_lines_terminated) simp_all
  then have "readlines (concat (readlines f @ [nl])) = readlines f @ [nl]"
    by (rule readlines_concat)
  with True show ?thesis by (simp add: concat_readlines)
next
  case False
  let ?ls = "readlines f"
  from False have ne: "?ls \<noteq> []" by (auto simp: terminated_def readlines_Nil_iff)
  have f: "f = concat (butlast ?ls) @ last ?ls"
    using concat_butlast_last [OF ne] by (simp add: concat_readlines)
  from proper_last [OF proper_readlines ne] have "part_line (last ?ls)"
  proof
    assume w: "whole_line (last ?ls)"
    then have "last ?ls \<noteq> []" "last (last ?ls) = CHR 0x0A" by (simp_all add: whole_line_def)
    with f have "last f = CHR 0x0A" by (metis last_appendR)
    with False show ?thesis by (simp add: terminated_def)
  qed
  with assms have "whole_line (last ?ls @ nl)" by (intro whole_line_append)
  with proper_butlast [OF proper_readlines, of f]
  have "proper (butlast ?ls @ [last ?ls @ nl])" by (intro proper_snoc) simp_all
  then have "readlines (concat (butlast ?ls @ [last ?ls @ nl])) = butlast ?ls @ [last ?ls @ nl]"
    by (rule readlines_concat)
  moreover have "concat (butlast ?ls @ [last ?ls @ nl]) = (concat (butlast ?ls) @ last ?ls) @ nl"
    by simp
  then have "concat (butlast ?ls @ [last ?ls @ nl]) = f @ nl"
    using f by metis
  ultimately have "readlines (f @ nl) = butlast ?ls @ [last ?ls @ nl]" by metis
  with False show ?thesis by simp
qed

lemma count_rewritten:
  assumes "list_all2 (rewritten args) ls out"
  shows "length (filter (is_match (name args)) out) \<le> length (filter (is_match (name args)) ls)"
  using assms
proof (induction rule: list_all2_induct)
  case Nil
  then show ?case by simp
next
  case (Cons l ls l' out)
  then show ?case by (auto simp: rewritten_def split: if_splits)
qed

lemma filter_butlast_Nil: "filter P ls = [] \<Longrightarrow> filter P (butlast ls) = []"
  by (auto simp: filter_empty_conv dest: in_set_butlastD)

lemma subseq_rewritten:
  assumes "list_all2 (rewritten args) ls out"
  shows "subseq (filter (\<lambda>l. \<not> is_match (name args) l) ls) out"
  using assms
proof (induction rule: list_all2_induct)
  case Nil
  then show ?case by simp
next
  case (Cons l ls l' out)
  then show ?case by (auto simp: rewritten_def split: if_splits)
qed

lemma set_mount_count:
  assumes "set_mount kw w = Inr (c, w1)" and "whole_line (new_line (set_mount_args kw))"
  shows "count_entries (kw_name kw) w1 \<le> max 1 (count_entries (kw_name kw) w)"
proof -
  from assms(1) obtain f where f: "fstab_file w = Some f"
    by (cases "fstab_file w") (auto simp: set_mount_def)
  from f show ?thesis
  proof (cases rule: set_mount_cases [where kw = kw])
    case unchanged
    with assms(1) show ?thesis by simp
  next
    case (rewrote out)
    from rewrote(2) assms(2) proper_readlines have "proper out" by (rule proper_rewritten)
    then have "readlines (concat out) = out" by (rule readlines_concat)
    with rewrote(1) assms(1) have "table_lines w1 = out"
      by (auto simp: table_lines_def write_fstab_def)
    with count_rewritten [OF rewrote(2)] f show ?thesis
      by (simp add: count_entries_def table_lines_def)
  next
    case appended
    let ?nl = "new_line (set_mount_args kw)"
    from appended(2) have z: "filter (is_match (kw_name kw)) (readlines f) = []"
      by (simp add: filter_empty_conv)
    from appended(1) assms(1) have "table_lines w1 = readlines (f @ ?nl)"
      by (auto simp: table_lines_def write_fstab_def concat_readlines)
    with readlines_append_line [OF assms(2), of f] z filter_butlast_Nil [OF z]
    have "length (filter (is_match (kw_name kw)) (table_lines w1)) \<le> 1"
      by (simp split: if_splits)
    then show ?thesis by (simp add: count_entries_def)
  qed
qed

subsection \<open>The state \<^verbatim>\<open>mounted\<close> and \<^verbatim>\<open>main\<close>\<close>

lemma state_mounted_fail:
  assumes "state_mounted kw mfs w = (FailJson msg, w')"
  shows "\<exists>w0 c. unset_mount kw w0 = Inr (c, w')"
  using assms
  by (auto simp: state_mounted_def mount_step_def Let_def
           split: sum.splits prod.splits if_splits option.splits)

lemma mount_step_trace:
  assumes "fstab_file w \<noteq> None"
  shows "\<exists>es. trace (snd (mount_step kw mfs ch w)) = trace w @ es
            \<and> (list_ex is_mount_event es \<longleftrightarrow> (kw_name kw \<notin> set (map fst mfs) \<or> ch))"
proof (cases "kw_name kw \<notin> set (map fst mfs) \<or> ch")
  case False
  then show ?thesis by (simp add: mount_step_def)
next
  case True
  obtain rc out err where mc: "mount_cmd w = (rc, out, err)" by (cases "mount_cmd w") auto
  let ?cmd = "if name_ismount w then [''mount'', ''-o'', ''remount'', kw_name kw]
              else [''mount'', kw_name kw]"
  let ?w1 = "w\<lparr>trace := trace w @ [RunMount ?cmd]\<rparr>"
  show ?thesis
  proof (cases "rc = 0")
    case rc: True
    with True mc have "trace (snd (mount_step kw mfs ch w)) = trace w @ [RunMount ?cmd]"
      by (simp add: mount_step_def mount_fs_def Let_def)
    with True show ?thesis by auto
  next
    case rc: False
    from assms obtain f where "fstab_file ?w1 = Some f" by auto
    from unset_mount_total [OF this, of kw] obtain c' w2 where
      u: "unset_mount kw ?w1 = Inr (c', w2)" by blast
    from unset_mount_frame [OF u] obtain es where "trace w2 = trace ?w1 @ es" by auto
    with True mc rc u have "trace (snd (mount_step kw mfs ch w)) = trace w @ (RunMount ?cmd # es)"
      by (simp add: mount_step_def mount_fs_def Let_def)
    with True show ?thesis by (intro exI [of _ "RunMount ?cmd # es"]) auto
  qed
qed

lemma list_ex_write_not_mount: "list_all is_write_event es \<Longrightarrow> \<not> list_ex is_mount_event es"
proof (induction es)
  case Nil
  then show ?case by simp
next
  case (Cons e es)
  then show ?case by (cases e) auto
qed

lemma mount_step_count:
  "count_entries (kw_name kw) (snd (mount_step kw mfs ch w)) \<le> count_entries (kw_name kw) w"
  by (auto simp: mount_step_def mount_fs_def Let_def unset_mount_count
           split: prod.splits sum.splits)

lemma state_mounted_count:
  assumes "whole_line (new_line (set_mount_args kw))"
  shows "count_entries (kw_name kw) (snd (state_mounted kw mfs w))
           \<le> max 1 (count_entries (kw_name kw) w)"
proof (cases "set_mount kw w")
  case (Inl e)
  then show ?thesis by (simp add: state_mounted_def)
next
  case (Inr r)
  obtain c w1 where r: "r = (c, w1)" by (cases r) auto
  with Inr have s: "set_mount kw w = Inr (c, w1)" by simp
  note b = set_mount_count [OF s assms]
  show ?thesis
  proof (cases "name_exists w1")
    case True
    with s have "state_mounted kw mfs w = mount_step kw mfs c w1"
      by (simp add: state_mounted_def)
    with mount_step_count [of kw mfs c w1] b show ?thesis by simp
  next
    case False
    let ?w2 = "w1\<lparr>trace := trace w1 @ [MakeDirs (kw_name kw)]\<rparr>"
    show ?thesis
    proof (cases "makedirs_err w1")
      case None
      with False s have "state_mounted kw mfs w
          = mount_step kw mfs True (?w2\<lparr>name_exists := True\<rparr>)"
        by (simp add: state_mounted_def Let_def)
      with mount_step_count [of kw mfs True "?w2\<lparr>name_exists := True\<rparr>"] b show ?thesis by simp
    next
      case (Some e)
      show ?thesis
      proof (cases "unset_mount kw ?w2")
        case (Inl x)
        with Some False s b show ?thesis by (simp add: state_mounted_def Let_def)
      next
        case (Inr r')
        obtain c' w3 where "r' = (c', w3)" by (cases r') auto
        with Inr have u: "unset_mount kw ?w2 = Inr (c', w3)" by simp
        from unset_mount_count [OF u] u Some False s show ?thesis
          by (simp add: state_mounted_def Let_def)
      qed
    qed
  qed
qed

lemma main_args_fields:
  assumes "main_args p = Inr args"
  shows "kw_name args = p_name p \<and> kw_state args = p_state p \<and> kw_src args = p_src p
       \<and> kw_fstype args = p_fstype p \<and> kw_opts args = p_opts p \<and> kw_dump args = p_dump p
       \<and> kw_passno args = p_passno p \<and> kw_fstab args = p_fstab p"
  using assms by (auto simp: main_args_def split: option.splits if_splits)

lemma newline_free_whole_line:
  assumes "main_args p = Inr args" and "newline_free p"
  shows "whole_line (new_line (set_mount_args args))"
proof (rule whole_line_new_line)
  from main_args_fields [OF assms(1)] assms(2)
  show "CHR 0x0A \<notin> set (concat (field_list (set_mount_args args)))"
    by (auto simp: newline_free_def field_list_def set_mount_args_def split: option.splits)
qed

lemma get_mounted_fs_world: "snd (get_mounted_fs w) = w\<lparr>trace := trace w @ [QueryMounts]\<rparr>"
  by (simp add: get_mounted_fs_def Let_def split: prod.splits)

lemma ensure_fstab_count:
  "ensure_fstab args w = Inr w' \<Longrightarrow> count_entries nm w' = count_entries nm w"
  by (auto simp: ensure_fstab_def count_entries_def table_lines_def
           split: if_splits option.splits)

lemma state_present_count:
  assumes "whole_line (new_line (set_mount_args kw))"
  shows "count_entries (kw_name kw) (snd (state_present kw w))
           \<le> max 1 (count_entries (kw_name kw) w)"
proof (cases "set_mount kw w")
  case (Inl e)
  then show ?thesis by (simp add: state_present_def)
next
  case (Inr r)
  obtain c w1 where "r = (c, w1)" by (cases r) auto
  with Inr have s: "set_mount kw w = Inr (c, w1)" by simp
  from set_mount_count [OF s assms] s show ?thesis by (simp add: state_present_def)
qed

lemma main_reaches_state:
  assumes "main_args p = Inr args" and "get_mounted_fs w = (Inr mfs, w1)" and "mfs \<noteq> []"
    and "ensure_fstab args w1 = Inr w2"
  shows "main p w =
           (case p_state p of
              Absent \<Rightarrow> state_absent args w2
            | Present \<Rightarrow> state_present args w2
            | Unmounted \<Rightarrow> state_unmounted args mfs w2
            | Mounted \<Rightarrow> state_mounted args mfs w2)"
  using assms main_args_fields [OF assms(1)] by (simp add: main_def)

lemma state_mounted_compensates:
  assumes "set_mount kw w = Inr (c, w1)"
  shows "(\<not> name_exists w \<and> makedirs_err w = Some e \<longrightarrow>
            (\<exists>c' w'. unset_mount kw (w1\<lparr>trace := trace w1 @ [MakeDirs (kw_name kw)]\<rparr>) = Inr (c', w')
                \<and> state_mounted kw mfs w
                    = (FailJson (''Error making dir '' @ kw_name kw @ '': '' @ e), w')))
       \<and> ((name_exists w \<or> makedirs_err w = None)
            \<and> (kw_name kw \<notin> set (map fst mfs) \<or> c \<or> \<not> name_exists w)
            \<and> fst (mount_cmd w) \<noteq> 0 \<longrightarrow>
            (\<exists>c' w'. unset_mount kw
                        (snd (mount_fs kw
                           (if name_exists w then w1
                            else w1\<lparr>trace := trace w1 @ [MakeDirs (kw_name kw)],
                                    name_exists := True\<rparr>))) = Inr (c', w')
                \<and> state_mounted kw mfs w
                    = (FailJson (''Error mounting '' @ kw_name kw @ '': ''
                                 @ fst (snd (mount_cmd w)) @ snd (snd (mount_cmd w))), w')))"
proof -
  note fr = set_mount_frame [OF assms]
  from fr obtain f1 where f1: "fstab_file w1 = Some f1" by auto
  show ?thesis
  proof (intro conjI impI)
    assume a: "\<not> name_exists w \<and> makedirs_err w = Some e"
    let ?w2 = "w1\<lparr>trace := trace w1 @ [MakeDirs (kw_name kw)]\<rparr>"
    from f1 have "fstab_file ?w2 = Some f1" by simp
    from unset_mount_total [OF this, of kw] obtain c' w' where
      u: "unset_mount kw ?w2 = Inr (c', w')" by blast
    with a fr assms have "state_mounted kw mfs w
        = (FailJson (''Error making dir '' @ kw_name kw @ '': '' @ e), w')"
      by (simp add: state_mounted_def Let_def)
    with u show "\<exists>c' w'. unset_mount kw ?w2 = Inr (c', w')
                \<and> state_mounted kw mfs w
                    = (FailJson (''Error making dir '' @ kw_name kw @ '': '' @ e), w')"
      by blast
  next
    assume a: "(name_exists w \<or> makedirs_err w = None)
            \<and> (kw_name kw \<notin> set (map fst mfs) \<or> c \<or> \<not> name_exists w)
            \<and> fst (mount_cmd w) \<noteq> 0"
    let ?wm = "if name_exists w then w1
               else w1\<lparr>trace := trace w1 @ [MakeDirs (kw_name kw)], name_exists := True\<rparr>"
    let ?w3 = "snd (mount_fs kw ?wm)"
    obtain rc out err where mc: "mount_cmd w = (rc, out, err)" by (cases "mount_cmd w") auto
    from f1 have "fstab_file ?w3 = Some f1"
      by (simp add: mount_fs_def Let_def split: prod.splits)
    from unset_mount_total [OF this, of kw] obtain c' w' where
      u: "unset_mount kw ?w3 = Inr (c', w')" by blast
    have "state_mounted kw mfs w
        = (FailJson (''Error mounting '' @ kw_name kw @ '': '' @ out @ err), w')"
    proof (cases "name_exists w")
      case True
      with a fr assms mc u show ?thesis
        by (auto simp: state_mounted_def mount_step_def mount_fs_def Let_def)
    next
      case False
      with a fr assms mc u show ?thesis
        by (auto simp: state_mounted_def mount_step_def mount_fs_def Let_def)
    qed
    with u mc show "\<exists>c' w'. unset_mount kw ?w3 = Inr (c', w')
                \<and> state_mounted kw mfs w
                    = (FailJson (''Error mounting '' @ kw_name kw @ '': ''
                                 @ fst (snd (mount_cmd w)) @ snd (snd (mount_cmd w))), w')"
      by auto
  qed
qed

lemma state_mounted_mount_iff:
  assumes "set_mount kw w = Inr (c, w1)" and "name_exists w \<or> makedirs_err w = None"
  shows "list_ex is_mount_event (new_events w (snd (state_mounted kw mfs w)))
           \<longleftrightarrow> kw_name kw \<notin> set (map fst mfs) \<or> c \<or> \<not> name_exists w"
proof -
  note fr = set_mount_frame [OF assms(1)]
  from fr obtain es where es: "trace w1 = trace w @ es" "list_all is_write_event es" by auto
  then have nm: "\<not> list_ex is_mount_event es" by (simp add: list_ex_write_not_mount)
  show ?thesis
  proof (cases "name_exists w")
    case True
    with fr assms(1) have s: "state_mounted kw mfs w = mount_step kw mfs c w1"
      by (simp add: state_mounted_def)
    from fr have "fstab_file w1 \<noteq> None" by simp
    from mount_step_trace [OF this, of kw mfs c] obtain es' where
      "trace (snd (mount_step kw mfs c w1)) = trace w1 @ es'"
      "list_ex is_mount_event es' \<longleftrightarrow> (kw_name kw \<notin> set (map fst mfs) \<or> c)" by blast
    with s es nm True show ?thesis by (simp add: new_events_def)
  next
    case False
    let ?w2 = "w1\<lparr>trace := trace w1 @ [MakeDirs (kw_name kw)], name_exists := True\<rparr>"
    from False assms(2) have "makedirs_err w = None" by simp
    with False fr assms(1) have s: "state_mounted kw mfs w = mount_step kw mfs True ?w2"
      by (simp add: state_mounted_def Let_def)
    from fr have "fstab_file ?w2 \<noteq> None" by simp
    from mount_step_trace [OF this, of kw mfs True] obtain es' where
      "trace (snd (mount_step kw mfs True ?w2)) = trace ?w2 @ es'"
      "list_ex is_mount_event es'" by auto
    with s es nm False show ?thesis by (simp add: new_events_def)
  qed
qed

lemma state_mounted_fail_count:
  assumes "state_mounted kw mfs w = (FailJson msg, w')"
  shows "count_entries (kw_name kw) w' = 0
       \<and> (0 < count_entries (kw_name kw) w \<longrightarrow> fstab_file w' \<noteq> fstab_file w)"
proof -
  from state_mounted_fail [OF assms] obtain w0 c where "unset_mount kw w0 = Inr (c, w')"
    by blast
  then have z: "count_entries (kw_name kw) w' = 0" by (rule unset_mount_count)
  then show ?thesis using count_entries_cong [of w' w "kw_name kw"] by auto
qed

lemma dispatched_main:
  assumes "dispatched p w args mfs w2"
  shows "main p w =
           (case p_state p of
              Absent \<Rightarrow> state_absent args w2
            | Present \<Rightarrow> state_present args w2
            | Unmounted \<Rightarrow> state_unmounted args mfs w2
            | Mounted \<Rightarrow> state_mounted args mfs w2)"
proof -
  from assms have a: "main_args p = Inr args" and b: "fst (get_mounted_fs w) = Inr mfs"
    and c: "mfs \<noteq> []" and d: "ensure_fstab args (snd (get_mounted_fs w)) = Inr w2"
    by (simp_all add: dispatched_def)
  from b have g: "get_mounted_fs w = (Inr mfs, snd (get_mounted_fs w))"
    by (cases "get_mounted_fs w") simp
  show ?thesis by (rule main_reaches_state [OF a g c d])
qed

lemma dispatched_frame:
  assumes "dispatched p w args mfs w2"
  shows "kw_name args = p_name p \<and> fstab_file w2 \<noteq> None
       \<and> count_entries nm w2 = count_entries nm w
       \<and> (\<exists>es. trace w2 = trace w @ es \<and> \<not> list_ex is_mount_event es)"
proof -
  let ?w1 = "w\<lparr>trace := trace w @ [QueryMounts]\<rparr>"
  from assms have a: "main_args p = Inr args" and e: "ensure_fstab args ?w1 = Inr w2"
    by (simp_all add: dispatched_def get_mounted_fs_world)
  from e have "fstab_file w2 \<noteq> None"
    by (auto simp: ensure_fstab_def split: if_splits option.splits)
  moreover from ensure_fstab_count [OF e, of nm] have "count_entries nm w2 = count_entries nm w"
    by simp
  moreover from e have "\<exists>es. trace w2 = trace w @ es \<and> \<not> list_ex is_mount_event es"
    by (auto simp: ensure_fstab_def split: if_splits option.splits)
  ultimately show ?thesis using main_args_fields [OF a] by simp
qed

section \<open>The claims\<close>

subsection \<open>C1: applying \<^verbatim>\<open>present\<close> twice\<close>

text \<open>
  C1, as amended. Let the table file be empty or end with a newline, and let the
  specification be well formed (six fields, none empty, none with whitespace, the source
  not starting with the comment sign). Then \<^verbatim>\<open>set_mount\<close> applied twice in a row
  with the same specification returns \<open>changed = True\<close> the first time, unless the
  table holds the requested entry already (it has an entry for the target, and every
  entry for the target has the fields of the request), in which case it returns
  \<open>changed = False\<close>; it returns \<open>changed = False\<close> the second time and leaves the
  system, and so the bytes of the table file, exactly as the first application left
  them. After the first application the table holds the requested entry, and its content
  is the content before exactly when it held the entry before.
\<close>

theorem present_twice:
  assumes "fstab_file w = Some f" and "terminated f" and "wf_spec (set_mount_args kw)"
  shows "\<exists>w1 f1. set_mount kw w = Inr (\<not> holds_entry (set_mount_args kw) f, w1)
               \<and> set_mount kw w1 = Inr (False, w1)
               \<and> fstab_file w1 = Some f1 \<and> holds_entry (set_mount_args kw) f1
               \<and> (f1 = f \<longleftrightarrow> holds_entry (set_mount_args kw) f)"
  using assms(1)
proof (cases rule: set_mount_cases [where kw = kw])
  case unchanged
  from unchanged(2,3) have "holds_entry (set_mount_args kw) f" by (simp add: holds_entry_def)
  with unchanged(1) assms(1) show ?thesis by auto
next
  case (rewrote out)
  let ?args = "set_mount_args kw"
  let ?w1 = "write_fstab out (kw_fstab kw) w"
  have f1: "fstab_file ?w1 = Some (concat out)" by (simp add: write_fstab_def)
  from assms(3) have wl: "whole_line (new_line ?args)" by (rule wf_spec_whole_line)
  from rewrote(2) wl proper_readlines have "proper out" by (rule proper_rewritten)
  then have r: "readlines (concat out) = out" by (rule readlines_concat)
  from list_all2_rewritten_settled [OF rewrote(2) assms(3)] rewrote(3)
  have s: "\<exists>l\<in>set out. is_match (kw_name kw) l"
    "\<forall>l\<in>set out. is_match (kw_name kw) l \<longrightarrow> py_split l = field_list ?args"
    by auto
  with r have h1: "holds_entry ?args (concat out)" by (simp add: holds_entry_def)
  from s f1 r have second: "set_mount kw ?w1 = Inr (False, ?w1)"
    by (intro set_mount_settled [where f = "concat out"]) simp_all
  from rewrote(3) have h0: "\<not> holds_entry ?args f" by (auto simp: holds_entry_def)
  from assms(3) have "list_all wf_field (field_list ?args)" by (simp add: wf_spec_def)
  with rewrote(2,3) have "out \<noteq> readlines f"
    by (intro list_all2_rewritten_neq [where args = ?args]) simp_all
  with r have "concat out \<noteq> f" by auto
  with rewrote(1) second f1 h1 h0 show ?thesis by auto
next
  case appended
  let ?args = "set_mount_args kw"
  let ?out = "readlines f @ [new_line ?args]"
  let ?w1 = "write_fstab ?out (kw_fstab kw) w"
  have f1: "fstab_file ?w1 = Some (concat ?out)" by (simp add: write_fstab_def)
  from assms(3) have wl: "whole_line (new_line ?args)" by (rule wf_spec_whole_line)
  with whole_lines_terminated [OF assms(2)] have "proper ?out" by (intro proper_snoc) simp_all
  then have r: "readlines (concat ?out) = ?out" by (rule readlines_concat)
  from assms(3) have m: "is_match (kw_name kw) (new_line ?args)"
    using is_match_new_line [of ?args] by simp
  from assms(3) have sp: "py_split (new_line ?args) = field_list ?args"
    by (simp add: wf_spec_def py_split_new_line)
  from m sp appended(2) have s: "\<exists>l\<in>set ?out. is_match (kw_name kw) l"
    "\<forall>l\<in>set ?out. is_match (kw_name kw) l \<longrightarrow> py_split l = field_list ?args"
    by auto
  with r have h1: "holds_entry ?args (concat ?out)" by (simp add: holds_entry_def)
  from s f1 r have second: "set_mount kw ?w1 = Inr (False, ?w1)"
    by (intro set_mount_settled [where f = "concat ?out"]) simp_all
  from appended(2) have h0: "\<not> holds_entry ?args f" by (auto simp: holds_entry_def)
  have "concat ?out \<noteq> f" by (simp add: concat_readlines new_line_def)
  with appended(1) second f1 h1 h0 show ?thesis by auto
qed

theorem present_twice_witness:
  "fstab_file (quiet_world []) = Some [] \<and> terminated []
   \<and> wf_spec (set_mount_args (dvd_kw Present))
   \<and> \<not> holds_entry (set_mount_args (dvd_kw Present)) []
   \<and> (\<exists>w1 f1. set_mount (dvd_kw Present) (quiet_world [])
                   = Inr (\<not> holds_entry (set_mount_args (dvd_kw Present)) [], w1)
               \<and> set_mount (dvd_kw Present) w1 = Inr (False, w1)
               \<and> fstab_file w1 = Some f1 \<and> holds_entry (set_mount_args (dvd_kw Present)) f1
               \<and> (f1 = [] \<longleftrightarrow> holds_entry (set_mount_args (dvd_kw Present)) []))"
proof -
  have a: "fstab_file (quiet_world []) = Some []" by (simp add: quiet_world_def)
  have b: "terminated []" by (simp add: terminated_def)
  have c: "wf_spec (set_mount_args (dvd_kw Present))" by code_simp
  have d: "\<not> holds_entry (set_mount_args (dvd_kw Present)) []" by (simp add: holds_entry_def)
  from a b c d present_twice [OF a b c] show ?thesis by (intro conjI)
qed

text \<open>
  The claim as stated fails: on a table that already holds the requested entry the first
  application returns \<open>changed = False\<close> and writes nothing.
\<close>

theorem present_twice_counterexample:
  "set_mount (dvd_kw Present) (quiet_world dvd_line) = Inr (False, quiet_world dvd_line)"
  by code_simp

subsection \<open>C2: entries for the target after \<^verbatim>\<open>present\<close> or \<^verbatim>\<open>mounted\<close>\<close>

text \<open>
  C2, as amended. After a run of \<^verbatim>\<open>main\<close> for the state \<^verbatim>\<open>present\<close> or
  \<^verbatim>\<open>mounted\<close>, with no newline in a field of the request, the table file holds at
  most one entry for the target when it held at most one before, and never more entries
  for the target than it held before otherwise. This holds for every outcome of the run
  and for every table file, also one that does not exist yet or does not end with a
  newline.
\<close>

theorem entries_for_target_bounded:
  assumes "p_state p = Present \<or> p_state p = Mounted" and "newline_free p"
  shows "count_entries (p_name p) (snd (main p w)) \<le> max 1 (count_entries (p_name p) w)"
proof (cases "main_args p")
  case (Inl msg)
  then show ?thesis by (simp add: main_def)
next
  case (Inr args)
  note fl = main_args_fields [OF Inr]
  note wl = newline_free_whole_line [OF Inr assms(2)]
  let ?w1 = "w\<lparr>trace := trace w @ [QueryMounts]\<rparr>"
  have c1: "count_entries (p_name p) ?w1 = count_entries (p_name p) w" by simp
  show ?thesis
  proof (cases "fst (get_mounted_fs w)")
    case (Inl e)
    then have "get_mounted_fs w = (Inl e, ?w1)"
      using get_mounted_fs_world [of w] by (cases "get_mounted_fs w") simp
    with Inr c1 show ?thesis by (simp add: main_def)
  next
    case mf: (Inr mfs)
    then have g: "get_mounted_fs w = (Inr mfs, ?w1)"
      using get_mounted_fs_world [of w] by (cases "get_mounted_fs w") simp
    show ?thesis
    proof (cases "mfs = []")
      case True
      with Inr g c1 show ?thesis by (simp add: main_def)
    next
      case False
      show ?thesis
      proof (cases "ensure_fstab args ?w1")
        case (Inl e)
        with Inr g False c1 show ?thesis by (simp add: main_def)
      next
        case en: (Inr w2)
        from ensure_fstab_count [OF en, of "p_name p"] c1
        have c2: "count_entries (p_name p) w2 = count_entries (p_name p) w" by simp
        note m = main_reaches_state [OF Inr g False en]
        from assms(1) show ?thesis
        proof
          assume "p_state p = Present"
          with m state_present_count [OF wl, of w2] fl c2 show ?thesis by simp
        next
          assume "p_state p = Mounted"
          with m state_mounted_count [OF wl, of mfs w2] fl c2 show ?thesis by simp
        qed
      qed
    qed
  qed
qed

theorem entries_for_target_bounded_witness:
  "(p_state (dvd_params Mounted) = Present \<or> p_state (dvd_params Mounted) = Mounted)
   \<and> newline_free (dvd_params Mounted)
   \<and> count_entries (p_name (dvd_params Mounted))
        (snd (main (dvd_params Mounted) (quiet_world two_dvd_lines)))
       \<le> max 1 (count_entries (p_name (dvd_params Mounted)) (quiet_world two_dvd_lines))"
proof -
  have a: "p_state (dvd_params Mounted) = Present \<or> p_state (dvd_params Mounted) = Mounted"
    by (simp add: dvd_params_def)
  have b: "newline_free (dvd_params Mounted)" by code_simp
  from a b entries_for_target_bounded [OF a b, where w = "quiet_world two_dvd_lines"]
  show ?thesis by blast
qed

text \<open>
  The claim as stated fails: \<^verbatim>\<open>set_mount\<close> rewrites every entry for the target where
  it stands and removes none, so a table with two entries for the target has two entries
  for it afterwards (here both rewritten to the requested line).
\<close>

theorem entries_for_target_bounded_counterexample:
  "main (dvd_params Present) (quiet_world two_dvd_lines)
     = (ExitJson True,
        (quiet_world (dvd_line @ dvd_line))
          \<lparr>trace := [QueryMounts, WriteFstab ''/etc/fstab'' (dvd_line @ dvd_line)]\<rparr>)
   \<and> count_entries ''/mnt/dvd'' (quiet_world two_dvd_lines) = 2
   \<and> count_entries ''/mnt/dvd'' (snd (main (dvd_params Present) (quiet_world two_dvd_lines))) = 2"
  by code_simp

subsection \<open>C3: when the mount command is run\<close>

text \<open>
  C3, as amended. Take a run of \<^verbatim>\<open>main\<close> for the state \<^verbatim>\<open>mounted\<close> that
  reaches the branch of the state, in which the table edit returns the flag \<open>c\<close> and
  the creation of the mount point does not fail (the mount point exists, or it can be
  created). The mount command is run in it if and only if the target is not in the list
  of mounted file systems, or the table edit reported a change, or the mount point did
  not exist and was created. So no mount command is run when the target is listed as
  mounted, the table entry was not changed and the mount point exists.
\<close>

theorem mount_invoked_iff:
  assumes "dispatched p w args mfs w2" and "p_state p = Mounted"
    and "set_mount args w2 = Inr (c, w3)" and "name_exists w2 \<or> makedirs_err w2 = None"
  shows "list_ex is_mount_event (new_events w (snd (main p w)))
           \<longleftrightarrow> p_name p \<notin> set (map fst mfs) \<or> c \<or> \<not> name_exists w2"
proof -
  from dispatched_main [OF assms(1)] assms(2)
  have m: "main p w = state_mounted args mfs w2" by simp
  from dispatched_frame [OF assms(1), of "[]"] obtain es where
    n: "kw_name args = p_name p" and es: "trace w2 = trace w @ es" "\<not> list_ex is_mount_event es"
    by auto
  from set_mount_frame [OF assms(3)] obtain es1 where
    es1: "trace w3 = trace w2 @ es1" by auto
  have "\<exists>es2. trace (snd (state_mounted args mfs w2)) = trace w2 @ es2"
  proof (cases "name_exists w2")
    case True
    with set_mount_frame [OF assms(3)] assms(3)
    have s: "state_mounted args mfs w2 = mount_step args mfs c w3"
      by (simp add: state_mounted_def)
    from set_mount_frame [OF assms(3)] have "fstab_file w3 \<noteq> None" by simp
    from mount_step_trace [OF this, of args mfs c] es1 s show ?thesis by auto
  next
    case False
    let ?w4 = "w3\<lparr>trace := trace w3 @ [MakeDirs (kw_name args)], name_exists := True\<rparr>"
    from False assms(4) have "makedirs_err w2 = None" by simp
    with False set_mount_frame [OF assms(3)] assms(3)
    have s: "state_mounted args mfs w2 = mount_step args mfs True ?w4"
      by (simp add: state_mounted_def Let_def)
    from set_mount_frame [OF assms(3)] have "fstab_file ?w4 \<noteq> None" by simp
    from mount_step_trace [OF this, of args mfs True] es1 s show ?thesis by auto
  qed
  then obtain es2 where es2: "trace (snd (state_mounted args mfs w2)) = trace w2 @ es2" by blast
  then have "new_events w2 (snd (state_mounted args mfs w2)) = es2"
    by (simp add: new_events_def)
  moreover from es es2 have "new_events w (snd (state_mounted args mfs w2)) = es @ es2"
    by (simp add: new_events_def)
  ultimately have "list_ex is_mount_event (new_events w (snd (main p w)))
      \<longleftrightarrow> list_ex is_mount_event (new_events w2 (snd (state_mounted args mfs w2)))"
    using es(2) m by simp
  with state_mounted_mount_iff [OF assms(3,4), of mfs] n show ?thesis by simp
qed

theorem mount_invoked_iff_witness:
  "dispatched (dvd_params Mounted) (dvd_mounted_world dvd_line) (dvd_kw Mounted)
     [(''/mnt/dvd'', ''/dev/sr0'')] (queried (dvd_mounted_world dvd_line))
   \<and> p_state (dvd_params Mounted) = Mounted
   \<and> set_mount (dvd_kw Mounted) (queried (dvd_mounted_world dvd_line))
       = Inr (False, queried (dvd_mounted_world dvd_line))
   \<and> (name_exists (queried (dvd_mounted_world dvd_line))
        \<or> makedirs_err (queried (dvd_mounted_world dvd_line)) = None)
   \<and> (list_ex is_mount_event
         (new_events (dvd_mounted_world dvd_line)
            (snd (main (dvd_params Mounted) (dvd_mounted_world dvd_line))))
        \<longleftrightarrow> p_name (dvd_params Mounted) \<notin> set (map fst [(''/mnt/dvd'', ''/dev/sr0'')])
            \<or> False \<or> \<not> name_exists (queried (dvd_mounted_world dvd_line)))"
proof -
  have d: "dispatched (dvd_params Mounted) (dvd_mounted_world dvd_line) (dvd_kw Mounted)
             [(''/mnt/dvd'', ''/dev/sr0'')] (queried (dvd_mounted_world dvd_line))"
    by code_simp
  have s: "p_state (dvd_params Mounted) = Mounted" by (simp add: dvd_params_def)
  have a: "set_mount (dvd_kw Mounted) (queried (dvd_mounted_world dvd_line))
             = Inr (False, queried (dvd_mounted_world dvd_line))"
    by code_simp
  have b: "name_exists (queried (dvd_mounted_world dvd_line))
           \<or> makedirs_err (queried (dvd_mounted_world dvd_line)) = None"
    by code_simp
  from d s a b mount_invoked_iff [OF d s a b] show ?thesis by blast
qed

text \<open>
  The claim as stated fails: the flag \<open>changed\<close> that decides the mount is also set
  by the creation of the mount point. With the target listed as mounted and its table
  entry unchanged, but its directory missing, the directory is created and the mount
  command is run.
\<close>

theorem mount_invoked_iff_counterexample:
  "fst (get_mounted_fs (stale_mount_world dvd_line)) = Inr [(''/mnt/dvd'', ''/dev/sr0'')]
   \<and> main (dvd_params Mounted) (stale_mount_world dvd_line)
       = (ExitJson True,
          (stale_mount_world dvd_line)
            \<lparr>name_exists := True,
             trace := [QueryMounts, MakeDirs ''/mnt/dvd'', RunMount [''mount'', ''/mnt/dvd'']]\<rparr>)
   \<and> fstab_file (stale_mount_world dvd_line) = Some dvd_line"
  by code_simp

subsection \<open>C4: opaque lines across a rewrite\<close>

text \<open>
  C4. Every line that is not an entry for the target (a blank line, a comment, a line
  that does not split into six fields) should be a line of the table after a run, byte
  for byte and in its order. The two loops do copy every such line to the output, but
  \<^verbatim>\<open>set_mount\<close> appends the new entry without looking whether the last line of
  the file ends with a newline; on a table whose last line has none, the appended entry
  is fused with that line. Two runs of \<^verbatim>\<open>main\<close> show it. In the state
  \<^verbatim>\<open>mounted\<close> with a failing mount command, the table of a comment and the
  unterminated line \<^verbatim>\<open>UUID=1234\<close> ends as the comment alone: the compensating
  removal deletes the fused line, and the opaque line \<^verbatim>\<open>UUID=1234\<close> with it. In
  the state \<^verbatim>\<open>present\<close>, the unterminated comment that ends the table of three
  opaque lines is no longer a line of the table afterwards, and the new entry is part of
  a comment.
\<close>

theorem opaque_line_lost:
  "table_lines (failing_mount_world unterminated_table)
     = [''# keep me'' @ [CHR 0x0A], ''UUID=1234'']
   \<and> fst (main (dvd_params Mounted) (failing_mount_world unterminated_table))
       = FailJson ''Error mounting /mnt/dvd: mount: no medium found''
   \<and> table_lines (snd (main (dvd_params Mounted) (failing_mount_world unterminated_table)))
       = [''# keep me'' @ [CHR 0x0A]]
   \<and> table_lines (quiet_world opaque_table)
       = [''only three fields here'' @ [CHR 0x0A], [CHR 0x0A], ''# keep me'']
   \<and> fst (main (dvd_params Present) (quiet_world opaque_table)) = ExitJson True
   \<and> table_lines (snd (main (dvd_params Present) (quiet_world opaque_table)))
       = [''only three fields here'' @ [CHR 0x0A], [CHR 0x0A], ''# keep me'' @ dvd_line]"
  by code_simp

text \<open>
  On a table file that is empty or ends with a newline the lines that are not entries
  for the target are kept by \<^verbatim>\<open>set_mount\<close>, byte for byte and in their order, when
  no field of the request has a newline; \<^verbatim>\<open>unset_mount\<close> keeps them on every
  table file.
\<close>

lemma set_mount_keeps_other_lines:
  assumes "set_mount kw w = Inr (c, w1)" and "fstab_file w = Some f" and "terminated f"
    and "whole_line (new_line (set_mount_args kw))"
  shows "subseq (filter (\<lambda>l. \<not> is_match (kw_name kw) l) (readlines f)) (table_lines w1)"
  using assms(2)
proof (cases rule: set_mount_cases [where kw = kw])
  case unchanged
  with assms(1,2) show ?thesis by (auto simp: table_lines_def)
next
  case (rewrote out)
  from rewrote(2) assms(4) proper_readlines have "proper out" by (rule proper_rewritten)
  then have "readlines (concat out) = out" by (rule readlines_concat)
  with rewrote(1) assms(1) have "table_lines w1 = out"
    by (auto simp: table_lines_def write_fstab_def)
  with subseq_rewritten [OF rewrote(2)] show ?thesis by simp
next
  case appended
  from appended(1) assms(1) have "table_lines w1 = readlines (f @ new_line (set_mount_args kw))"
    by (auto simp: table_lines_def write_fstab_def concat_readlines)
  with readlines_append_line [OF assms(4), of f] assms(3)
  have "table_lines w1 = readlines f @ [new_line (set_mount_args kw)]" by simp
  then show ?thesis by (simp add: subseq_rev_drop_many)
qed

subsection \<open>C5: what \<^verbatim>\<open>unset_mount\<close> removes\<close>

text \<open>
  C5. On an existing table file \<^verbatim>\<open>unset_mount\<close> returns, and the lines of the table
  afterwards are the lines before without the entries for the target, in their order:
  every line that is an entry (not blank, not a comment, six fields) with the requested
  name as its second field is dropped, whatever its other five fields are, and whatever
  the other fields of the request are. \<open>changed\<close> is true exactly when the table held
  such an entry, that is, when at least one line was dropped.
\<close>

theorem unset_mount_drops:
  assumes "fstab_file w = Some f"
  shows "\<exists>c w'. unset_mount kw w = Inr (c, w')
           \<and> table_lines w' = filter (\<lambda>l. \<not> is_match (kw_name kw) l) (readlines f)
           \<and> (c \<longleftrightarrow> (\<exists>l\<in>set (readlines f). is_match (kw_name kw) l))
           \<and> (\<forall>d::entry. wf_spec d \<and> name d = kw_name kw \<longrightarrow> new_line d \<notin> set (table_lines w'))
           \<and> (\<forall>kw'. kw_name kw' = kw_name kw \<and> kw_fstab kw' = kw_fstab kw
                   \<longrightarrow> unset_mount kw' w = unset_mount kw w)"
proof -
  from unset_mount_table_lines [OF assms, of kw] obtain c w' where
    u: "unset_mount kw w = Inr (c, w')"
    and t: "table_lines w' = filter (\<lambda>l. \<not> is_match (kw_name kw) l) (readlines f)"
    and c: "c \<longleftrightarrow> (\<exists>l\<in>set (readlines f). is_match (kw_name kw) l)"
    by blast
  have d: "\<forall>d::entry. wf_spec d \<and> name d = kw_name kw \<longrightarrow> new_line d \<notin> set (table_lines w')"
  proof (intro allI impI)
    fix d :: entry
    assume "wf_spec d \<and> name d = kw_name kw"
    with is_match_new_line [of d] have "is_match (kw_name kw) (new_line d)" by auto
    then show "new_line d \<notin> set (table_lines w')" unfolding t by simp
  qed
  have k: "\<forall>kw'. kw_name kw' = kw_name kw \<and> kw_fstab kw' = kw_fstab kw
                   \<longrightarrow> unset_mount kw' w = unset_mount kw w"
    using assms by (simp add: unset_mount_eq)
  from u t c d k show ?thesis by blast
qed

theorem unset_mount_drops_witness:
  "fstab_file (quiet_world (''# keep me'' @ [CHR 0x0A] @ dvd_line))
     = Some (''# keep me'' @ [CHR 0x0A] @ dvd_line)
   \<and> (\<exists>c w'. unset_mount (dvd_kw Absent) (quiet_world (''# keep me'' @ [CHR 0x0A] @ dvd_line))
                = Inr (c, w')
           \<and> table_lines w' = filter (\<lambda>l. \<not> is_match (kw_name (dvd_kw Absent)) l)
                                 (readlines (''# keep me'' @ [CHR 0x0A] @ dvd_line))
           \<and> (c \<longleftrightarrow> (\<exists>l\<in>set (readlines (''# keep me'' @ [CHR 0x0A] @ dvd_line)).
                       is_match (kw_name (dvd_kw Absent)) l))
           \<and> (\<forall>d::entry. wf_spec d \<and> name d = kw_name (dvd_kw Absent)
                   \<longrightarrow> new_line d \<notin> set (table_lines w'))
           \<and> (\<forall>kw'. kw_name kw' = kw_name (dvd_kw Absent) \<and> kw_fstab kw' = kw_fstab (dvd_kw Absent)
                   \<longrightarrow> unset_mount kw' (quiet_world (''# keep me'' @ [CHR 0x0A] @ dvd_line))
                       = unset_mount (dvd_kw Absent)
                           (quiet_world (''# keep me'' @ [CHR 0x0A] @ dvd_line))))"
proof -
  have a: "fstab_file (quiet_world (''# keep me'' @ [CHR 0x0A] @ dvd_line))
             = Some (''# keep me'' @ [CHR 0x0A] @ dvd_line)"
    by (simp add: quiet_world_def)
  from a unset_mount_drops [OF a, where kw = "dvd_kw Absent"] show ?thesis by (rule conjI)
qed

subsection \<open>C6: decoding and encoding a line\<close>

text \<open>
  C6. A line made of six well formed fields (not empty, no whitespace) joined by single
  spaces and ended by a newline splits into exactly these six fields, which the tuple
  assignment reads as source, target, type, options, dump frequency and pass number in
  this order; formatting the decoded entry with \<^verbatim>\<open>new_line\<close> gives the line back,
  byte for byte.
\<close>

theorem decode_encode:
  assumes "list_all wf_field [a, b, c, d, e, f]"
  shows "py_split (a @ '' '' @ b @ '' '' @ c @ '' '' @ d @ '' '' @ e @ '' '' @ f @ [CHR 0x0A])
           = [a, b, c, d, e, f]
       \<and> unpack (py_split (a @ '' '' @ b @ '' '' @ c @ '' '' @ d @ '' '' @ e @ '' '' @ f @ [CHR 0x0A]))
           = \<lparr>src = a, name = b, fstype = c, opts = d, dump = e, passno = f\<rparr>
       \<and> new_line (unpack (py_split
             (a @ '' '' @ b @ '' '' @ c @ '' '' @ d @ '' '' @ e @ '' '' @ f @ [CHR 0x0A])))
           = a @ '' '' @ b @ '' '' @ c @ '' '' @ d @ '' '' @ e @ '' '' @ f @ [CHR 0x0A]"
proof -
  let ?d = "\<lparr>src = a, name = b, fstype = c, opts = d, dump = e, passno = f\<rparr>"
  have l: "new_line ?d = a @ '' '' @ b @ '' '' @ c @ '' '' @ d @ '' '' @ e @ '' '' @ f @ [CHR 0x0A]"
    by (simp add: new_line_def)
  from assms have "list_all wf_field (field_list ?d)" by (simp add: field_list_def)
  then have "py_split (new_line ?d) = field_list ?d" by (rule py_split_new_line)
  then have s: "py_split (new_line ?d) = [a, b, c, d, e, f]" by (simp add: field_list_def)
  have u: "unpack [a, b, c, d, e, f] = ?d" by (simp add: unpack_def)
  from s u show ?thesis unfolding l [symmetric] by simp
qed

theorem decode_encode_witness:
  "list_all wf_field [''/dev/sr0'', ''/mnt/dvd'', ''iso9660'', ''ro'', ''0'', ''0'']
   \<and> py_split (''/dev/sr0'' @ '' '' @ ''/mnt/dvd'' @ '' '' @ ''iso9660'' @ '' '' @ ''ro'' @ '' ''
               @ ''0'' @ '' '' @ ''0'' @ [CHR 0x0A])
       = [''/dev/sr0'', ''/mnt/dvd'', ''iso9660'', ''ro'', ''0'', ''0'']
   \<and> unpack (py_split (''/dev/sr0'' @ '' '' @ ''/mnt/dvd'' @ '' '' @ ''iso9660'' @ '' '' @ ''ro''
               @ '' '' @ ''0'' @ '' '' @ ''0'' @ [CHR 0x0A]))
       = \<lparr>src = ''/dev/sr0'', name = ''/mnt/dvd'', fstype = ''iso9660'', opts = ''ro'',
          dump = ''0'', passno = ''0''\<rparr>
   \<and> new_line (unpack (py_split (''/dev/sr0'' @ '' '' @ ''/mnt/dvd'' @ '' '' @ ''iso9660'' @ '' ''
               @ ''ro'' @ '' '' @ ''0'' @ '' '' @ ''0'' @ [CHR 0x0A])))
       = ''/dev/sr0'' @ '' '' @ ''/mnt/dvd'' @ '' '' @ ''iso9660'' @ '' '' @ ''ro'' @ '' ''
               @ ''0'' @ '' '' @ ''0'' @ [CHR 0x0A]"
proof -
  have a: "list_all wf_field [''/dev/sr0'', ''/mnt/dvd'', ''iso9660'', ''ro'', ''0'', ''0'']"
    by code_simp
  from a decode_encode [OF a] show ?thesis by (rule conjI)
qed

subsection \<open>C7: compensation when the state \<^verbatim>\<open>mounted\<close> fails\<close>

text \<open>
  C7. Take a run of \<^verbatim>\<open>main\<close> for the state \<^verbatim>\<open>mounted\<close> that reaches the
  branch of the state and in which the table edit has returned. If the mount point does
  not exist and its creation fails, or if the mount command is run and exits with a code
  other than 0, then \<^verbatim>\<open>unset_mount\<close> is run on the system as the failed action left
  it, it returns, and the run ends with \<^verbatim>\<open>fail_json\<close> and the message of the
  failed action, in the system that \<^verbatim>\<open>unset_mount\<close> left. The table of that system
  is the table the edit had left without its entries for the target, in the same order:
  it has no entry for the target.
\<close>

theorem mounted_failure_compensates:
  assumes "dispatched p w args mfs w2" and "p_state p = Mounted"
    and "set_mount args w2 = Inr (c, w3)"
  shows "(\<not> name_exists w2 \<and> makedirs_err w2 = Some e \<longrightarrow>
            (\<exists>c' w'. unset_mount args (w3\<lparr>trace := trace w3 @ [MakeDirs (p_name p)]\<rparr>) = Inr (c', w')
                \<and> main p w = (FailJson (''Error making dir '' @ p_name p @ '': '' @ e), w')
                \<and> table_lines w' = filter (\<lambda>l. \<not> is_match (p_name p) l) (table_lines w3)
                \<and> count_entries (p_name p) w' = 0))
       \<and> ((name_exists w2 \<or> makedirs_err w2 = None)
            \<and> (p_name p \<notin> set (map fst mfs) \<or> c \<or> \<not> name_exists w2)
            \<and> fst (mount_cmd w2) \<noteq> 0 \<longrightarrow>
            (\<exists>c' w'. unset_mount args
                        (snd (mount_fs args
                           (if name_exists w2 then w3
                            else w3\<lparr>trace := trace w3 @ [MakeDirs (p_name p)],
                                    name_exists := True\<rparr>))) = Inr (c', w')
                \<and> main p w
                    = (FailJson (''Error mounting '' @ p_name p @ '': ''
                                 @ fst (snd (mount_cmd w2)) @ snd (snd (mount_cmd w2))), w')
                \<and> table_lines w' = filter (\<lambda>l. \<not> is_match (p_name p) l) (table_lines w3)
                \<and> count_entries (p_name p) w' = 0))"
proof -
  from dispatched_main [OF assms(1)] assms(2)
  have m: "main p w = state_mounted args mfs w2" by simp
  from dispatched_frame [OF assms(1), of "[]"] have n: "kw_name args = p_name p" by simp
  note sc = state_mounted_compensates [OF assms(3), of e mfs, unfolded n, folded m]
  show ?thesis
  proof (intro conjI impI)
    assume a: "\<not> name_exists w2 \<and> makedirs_err w2 = Some e"
    let ?X = "w3\<lparr>trace := trace w3 @ [MakeDirs (p_name p)]\<rparr>"
    from sc a obtain c' w' where u: "unset_mount args ?X = Inr (c', w')"
      and r: "main p w = (FailJson (''Error making dir '' @ p_name p @ '': '' @ e), w')"
      by blast
    have "table_lines ?X = table_lines w3" by (rule table_lines_cong) simp
    with unset_mount_lines_after [OF u] n
    have t: "table_lines w' = filter (\<lambda>l. \<not> is_match (p_name p) l) (table_lines w3)" by simp
    from unset_mount_count [OF u] n have z: "count_entries (p_name p) w' = 0" by simp
    from u r t z show "\<exists>c' w'. unset_mount args ?X = Inr (c', w')
                \<and> main p w = (FailJson (''Error making dir '' @ p_name p @ '': '' @ e), w')
                \<and> table_lines w' = filter (\<lambda>l. \<not> is_match (p_name p) l) (table_lines w3)
                \<and> count_entries (p_name p) w' = 0"
      by blast
  next
    assume a: "(name_exists w2 \<or> makedirs_err w2 = None)
            \<and> (p_name p \<notin> set (map fst mfs) \<or> c \<or> \<not> name_exists w2)
            \<and> fst (mount_cmd w2) \<noteq> 0"
    let ?X = "snd (mount_fs args
                 (if name_exists w2 then w3
                  else w3\<lparr>trace := trace w3 @ [MakeDirs (p_name p)], name_exists := True\<rparr>))"
    from sc a obtain c' w' where u: "unset_mount args ?X = Inr (c', w')"
      and r: "main p w = (FailJson (''Error mounting '' @ p_name p @ '': ''
                                 @ fst (snd (mount_cmd w2)) @ snd (snd (mount_cmd w2))), w')"
      by blast
    have "table_lines ?X = table_lines w3" by (rule table_lines_cong) simp
    with unset_mount_lines_after [OF u] n
    have t: "table_lines w' = filter (\<lambda>l. \<not> is_match (p_name p) l) (table_lines w3)" by simp
    from unset_mount_count [OF u] n have z: "count_entries (p_name p) w' = 0" by simp
    from u r t z show "\<exists>c' w'. unset_mount args ?X = Inr (c', w')
                \<and> main p w = (FailJson (''Error mounting '' @ p_name p @ '': ''
                                 @ fst (snd (mount_cmd w2)) @ snd (snd (mount_cmd w2))), w')
                \<and> table_lines w' = filter (\<lambda>l. \<not> is_match (p_name p) l) (table_lines w3)
                \<and> count_entries (p_name p) w' = 0"
      by blast
  qed
qed

theorem mounted_failure_compensates_witness:
  "dispatched (dvd_params Mounted) (no_dir_world dvd_line) (dvd_kw Mounted)
     [(''/'', ''/dev/sda1'')] (queried (no_dir_world dvd_line))
   \<and> p_state (dvd_params Mounted) = Mounted
   \<and> set_mount (dvd_kw Mounted) (queried (no_dir_world dvd_line))
       = Inr (False, queried (no_dir_world dvd_line))
   \<and> \<not> name_exists (queried (no_dir_world dvd_line))
   \<and> makedirs_err (queried (no_dir_world dvd_line)) = Some ''Permission denied''
   \<and> (\<exists>c' w'. unset_mount (dvd_kw Mounted)
                  ((queried (no_dir_world dvd_line))
                     \<lparr>trace := trace (queried (no_dir_world dvd_line))
                               @ [MakeDirs (p_name (dvd_params Mounted))]\<rparr>)
                = Inr (c', w')
          \<and> main (dvd_params Mounted) (no_dir_world dvd_line)
              = (FailJson (''Error making dir '' @ p_name (dvd_params Mounted) @ '': ''
                           @ ''Permission denied''), w')
          \<and> table_lines w' = filter (\<lambda>l. \<not> is_match (p_name (dvd_params Mounted)) l)
                                (table_lines (queried (no_dir_world dvd_line)))
          \<and> count_entries (p_name (dvd_params Mounted)) w' = 0)
   \<and> dispatched (dvd_params Mounted) (failing_mount_world dvd_line) (dvd_kw Mounted)
       [(''/'', ''/dev/sda1'')] (queried (failing_mount_world dvd_line))
   \<and> set_mount (dvd_kw Mounted) (queried (failing_mount_world dvd_line))
       = Inr (False, queried (failing_mount_world dvd_line))
   \<and> name_exists (queried (failing_mount_world dvd_line))
   \<and> p_name (dvd_params Mounted) \<notin> set (map fst [(''/'', ''/dev/sda1'')])
   \<and> fst (mount_cmd (queried (failing_mount_world dvd_line))) \<noteq> 0
   \<and> (\<exists>c' w'. unset_mount (dvd_kw Mounted)
                  (snd (mount_fs (dvd_kw Mounted)
                     (if name_exists (queried (failing_mount_world dvd_line))
                      then queried (failing_mount_world dvd_line)
                      else (queried (failing_mount_world dvd_line))
                             \<lparr>trace := trace (queried (failing_mount_world dvd_line))
                                       @ [MakeDirs (p_name (dvd_params Mounted))],
                              name_exists := True\<rparr>)))
                = Inr (c', w')
          \<and> main (dvd_params Mounted) (failing_mount_world dvd_line)
              = (FailJson (''Error mounting '' @ p_name (dvd_params Mounted) @ '': ''
                           @ fst (snd (mount_cmd (queried (failing_mount_world dvd_line))))
                           @ snd (snd (mount_cmd (queried (failing_mount_world dvd_line))))), w')
          \<and> table_lines w' = filter (\<lambda>l. \<not> is_match (p_name (dvd_params Mounted)) l)
                                (table_lines (queried (failing_mount_world dvd_line)))
          \<and> count_entries (p_name (dvd_params Mounted)) w' = 0)
   \<and> count_entries (p_name (dvd_params Mounted)) (queried (no_dir_world dvd_line)) = 1
   \<and> count_entries (p_name (dvd_params Mounted)) (queried (failing_mount_world dvd_line)) = 1"
proof -
  have s: "p_state (dvd_params Mounted) = Mounted" by (simp add: dvd_params_def)
  have d1: "dispatched (dvd_params Mounted) (no_dir_world dvd_line) (dvd_kw Mounted)
              [(''/'', ''/dev/sda1'')] (queried (no_dir_world dvd_line))"
    by code_simp
  have a1: "set_mount (dvd_kw Mounted) (queried (no_dir_world dvd_line))
              = Inr (False, queried (no_dir_world dvd_line))"
    by code_simp
  have b1: "\<not> name_exists (queried (no_dir_world dvd_line))" by code_simp
  have c1: "makedirs_err (queried (no_dir_world dvd_line)) = Some ''Permission denied''"
    by code_simp
  have d2: "dispatched (dvd_params Mounted) (failing_mount_world dvd_line) (dvd_kw Mounted)
              [(''/'', ''/dev/sda1'')] (queried (failing_mount_world dvd_line))"
    by code_simp
  have a2: "set_mount (dvd_kw Mounted) (queried (failing_mount_world dvd_line))
              = Inr (False, queried (failing_mount_world dvd_line))"
    by code_simp
  have b2: "name_exists (queried (failing_mount_world dvd_line))" by code_simp
  have c2: "p_name (dvd_params Mounted) \<notin> set (map fst [(''/'', ''/dev/sda1'')])"
    by (simp add: dvd_params_def)
  have e2: "fst (mount_cmd (queried (failing_mount_world dvd_line))) \<noteq> 0"
    by (simp add: queried_def failing_mount_world_def quiet_world_def)
  from mounted_failure_compensates [OF d1 s a1, where e = "''Permission denied''"] b1 c1
  have r1: "\<exists>c' w'. unset_mount (dvd_kw Mounted)
                  ((queried (no_dir_world dvd_line))
                     \<lparr>trace := trace (queried (no_dir_world dvd_line))
                               @ [MakeDirs (p_name (dvd_params Mounted))]\<rparr>)
                = Inr (c', w')
          \<and> main (dvd_params Mounted) (no_dir_world dvd_line)
              = (FailJson (''Error making dir '' @ p_name (dvd_params Mounted) @ '': ''
                           @ ''Permission denied''), w')
          \<and> table_lines w' = filter (\<lambda>l. \<not> is_match (p_name (dvd_params Mounted)) l)
                                (table_lines (queried (no_dir_world dvd_line)))
          \<and> count_entries (p_name (dvd_params Mounted)) w' = 0"
    by blast
  from mounted_failure_compensates [OF d2 s a2] b2 c2 e2
  have r2: "\<exists>c' w'. unset_mount (dvd_kw Mounted)
                  (snd (mount_fs (dvd_kw Mounted)
                     (if name_exists (queried (failing_mount_world dvd_line))
                      then queried (failing_mount_world dvd_line)
                      else (queried (failing_mount_world dvd_line))
                             \<lparr>trace := trace (queried (failing_mount_world dvd_line))
                                       @ [MakeDirs (p_name (dvd_params Mounted))],
                              name_exists := True\<rparr>)))
                = Inr (c', w')
          \<and> main (dvd_params Mounted) (failing_mount_world dvd_line)
              = (FailJson (''Error mounting '' @ p_name (dvd_params Mounted) @ '': ''
                           @ fst (snd (mount_cmd (queried (failing_mount_world dvd_line))))
                           @ snd (snd (mount_cmd (queried (failing_mount_world dvd_line))))), w')
          \<and> table_lines w' = filter (\<lambda>l. \<not> is_match (p_name (dvd_params Mounted)) l)
                                (table_lines (queried (failing_mount_world dvd_line)))
          \<and> count_entries (p_name (dvd_params Mounted)) w' = 0"
    by blast
  have n1: "count_entries (p_name (dvd_params Mounted)) (queried (no_dir_world dvd_line)) = 1"
    by code_simp
  have n2: "count_entries (p_name (dvd_params Mounted)) (queried (failing_mount_world dvd_line)) = 1"
    by code_simp
  from d1 s a1 b1 c1 r1 d2 a2 b2 c2 e2 r2 n1 n2 show ?thesis by (intro conjI)
qed

subsection \<open>C8: the table file is written only when something changed\<close>

text \<open>
  C8. When \<^verbatim>\<open>set_mount\<close> or \<^verbatim>\<open>unset_mount\<close> returns \<open>changed = False\<close> the
  system is left as it was: no write, the bytes of the table file untouched. When it
  returns \<open>changed = True\<close> the system afterwards is the one a single call of
  \<^verbatim>\<open>write_fstab\<close> produces. The number of writes of one reconciliation is one when
  \<open>changed\<close> and zero otherwise.
\<close>

theorem write_only_when_changed:
  assumes "set_mount kw w = Inr (c, w') \<or> unset_mount kw w = Inr (c, w')"
  shows "(if c then \<exists>ls. w' = write_fstab ls (kw_fstab kw) w else w' = w)
       \<and> length (filter is_write_event (new_events w w')) = (if c then 1 else 0)"
  using assms by (rule reconcile_shape)

theorem write_only_when_changed_witness:
  "(set_mount (dvd_kw Present) (quiet_world [])
      = Inr (True, write_fstab [dvd_line] ''/etc/fstab'' (quiet_world []))
    \<or> unset_mount (dvd_kw Present) (quiet_world [])
      = Inr (True, write_fstab [dvd_line] ''/etc/fstab'' (quiet_world [])))
   \<and> (if True
       then \<exists>ls. write_fstab [dvd_line] ''/etc/fstab'' (quiet_world [])
                  = write_fstab ls (kw_fstab (dvd_kw Present)) (quiet_world [])
       else write_fstab [dvd_line] ''/etc/fstab'' (quiet_world []) = quiet_world [])
   \<and> length (filter is_write_event
         (new_events (quiet_world []) (write_fstab [dvd_line] ''/etc/fstab'' (quiet_world []))))
       = (if True then 1 else 0)"
proof -
  have "set_mount (dvd_kw Present) (quiet_world [])
          = Inr (True, write_fstab [dvd_line] ''/etc/fstab'' (quiet_world []))"
    by code_simp
  then have a: "set_mount (dvd_kw Present) (quiet_world [])
          = Inr (True, write_fstab [dvd_line] ''/etc/fstab'' (quiet_world []))
    \<or> unset_mount (dvd_kw Present) (quiet_world [])
          = Inr (True, write_fstab [dvd_line] ''/etc/fstab'' (quiet_world []))" ..
  from a write_only_when_changed [OF a] show ?thesis by (rule conjI)
qed

subsection \<open>C9: the compensation removes, it does not restore\<close>

text \<open>
  C9. When a run of \<^verbatim>\<open>main\<close> for the state \<^verbatim>\<open>mounted\<close> reaches the branch
  of the state and ends with \<^verbatim>\<open>fail_json\<close> (it then does so after a failed
  creation of the mount point or a failed mount command, and after the compensating
  \<^verbatim>\<open>unset_mount\<close>), the table file holds no entry for the target at all; so when it
  held one before the run, its content is not what it was before the run: the entry is
  not restored.
\<close>

theorem failed_mounted_removes_entry:
  assumes "dispatched p w args mfs w2" and "p_state p = Mounted"
    and "main p w = (FailJson msg, w')"
  shows "count_entries (p_name p) w' = 0
       \<and> (0 < count_entries (p_name p) w \<longrightarrow> fstab_file w' \<noteq> fstab_file w)"
proof -
  from dispatched_main [OF assms(1)] assms(2,3)
  have "state_mounted args mfs w2 = (FailJson msg, w')" by simp
  from state_mounted_fail_count [OF this] dispatched_frame [OF assms(1), of "[]"]
  have z: "count_entries (p_name p) w' = 0" by simp
  then show ?thesis using count_entries_cong [of w' w "p_name p"] by auto
qed

theorem failed_mounted_removes_entry_witness:
  "dispatched (dvd_params Mounted) (failing_mount_world dvd_line) (dvd_kw Mounted)
     [(''/'', ''/dev/sda1'')] (queried (failing_mount_world dvd_line))
   \<and> p_state (dvd_params Mounted) = Mounted
   \<and> main (dvd_params Mounted) (failing_mount_world dvd_line)
     = (FailJson ''Error mounting /mnt/dvd: mount: no medium found'',
        (failing_mount_world [])
          \<lparr>trace := [QueryMounts, RunMount [''mount'', ''/mnt/dvd''],
                     WriteFstab ''/etc/fstab'' []]\<rparr>)
   \<and> 0 < count_entries (p_name (dvd_params Mounted)) (failing_mount_world dvd_line)
   \<and> count_entries (p_name (dvd_params Mounted))
        ((failing_mount_world [])
          \<lparr>trace := [QueryMounts, RunMount [''mount'', ''/mnt/dvd''],
                     WriteFstab ''/etc/fstab'' []]\<rparr>) = 0
   \<and> fstab_file ((failing_mount_world [])
          \<lparr>trace := [QueryMounts, RunMount [''mount'', ''/mnt/dvd''],
                     WriteFstab ''/etc/fstab'' []]\<rparr>)
       \<noteq> fstab_file (failing_mount_world dvd_line)"
proof -
  have d: "dispatched (dvd_params Mounted) (failing_mount_world dvd_line) (dvd_kw Mounted)
             [(''/'', ''/dev/sda1'')] (queried (failing_mount_world dvd_line))"
    by code_simp
  have s: "p_state (dvd_params Mounted) = Mounted" by (simp add: dvd_params_def)
  have a: "main (dvd_params Mounted) (failing_mount_world dvd_line)
     = (FailJson ''Error mounting /mnt/dvd: mount: no medium found'',
        (failing_mount_world [])
          \<lparr>trace := [QueryMounts, RunMount [''mount'', ''/mnt/dvd''],
                     WriteFstab ''/etc/fstab'' []]\<rparr>)"
    by code_simp
  have b: "0 < count_entries (p_name (dvd_params Mounted)) (failing_mount_world dvd_line)"
    by code_simp
  from d s a b failed_mounted_removes_entry [OF d s a] show ?thesis by blast
qed

subsection \<open>C10: an empty list of mounted file systems\<close>

text \<open>
  C10. When \<^verbatim>\<open>get_mounted_fs\<close> returns the empty dictionary, \<^verbatim>\<open>main\<close> ends with
  \<^verbatim>\<open>fail_json\<close> whatever the requested state is: with the message of the failed
  query, the query being the only action performed, unless the parameters were refused
  before the query was made. The table file is not created, read or written: its content
  after the run is its content before.
\<close>

theorem empty_mount_list_is_fatal:
  assumes "fst (get_mounted_fs w) = Inr []"
  shows "main p w =
           (case main_args p of
              Inl msg \<Rightarrow> (FailJson msg, w)
            | Inr args \<Rightarrow> (FailJson ''Error getting list of mounted file systems'',
                           w\<lparr>trace := trace w @ [QueryMounts]\<rparr>))
       \<and> (\<exists>msg. fst (main p w) = FailJson msg)
       \<and> fstab_file (snd (main p w)) = fstab_file w"
proof -
  have w1: "snd (get_mounted_fs w) = w\<lparr>trace := trace w @ [QueryMounts]\<rparr>"
    by (simp add: get_mounted_fs_def Let_def split: prod.splits)
  with assms have g: "get_mounted_fs w = (Inr [], w\<lparr>trace := trace w @ [QueryMounts]\<rparr>)"
    by (cases "get_mounted_fs w") simp
  show ?thesis
    by (cases "main_args p") (simp_all add: main_def g)
qed

theorem empty_mount_list_is_fatal_witness:
  "fst (get_mounted_fs (failing_query_world dvd_line)) = Inr []
   \<and> main (dvd_params Absent) (failing_query_world dvd_line) =
       (case main_args (dvd_params Absent) of
          Inl msg \<Rightarrow> (FailJson msg, failing_query_world dvd_line)
        | Inr args \<Rightarrow> (FailJson ''Error getting list of mounted file systems'',
                       (failing_query_world dvd_line)
                         \<lparr>trace := trace (failing_query_world dvd_line) @ [QueryMounts]\<rparr>))
   \<and> (\<exists>msg. fst (main (dvd_params Absent) (failing_query_world dvd_line)) = FailJson msg)
   \<and> fstab_file (snd (main (dvd_params Absent) (failing_query_world dvd_line)))
       = fstab_file (failing_query_world dvd_line)"
proof -
  have a: "fst (get_mounted_fs (failing_query_world dvd_line)) = Inr []"
    by (simp add: get_mounted_fs_def failing_query_world_def quiet_world_def)
  from a empty_mount_list_is_fatal [OF a, where p = "dvd_params Absent"] show ?thesis
    by (rule conjI)
qed

end
